theory Spec2Isabelle
  imports Complex_Main "HOL-Library.Multiset" "HOL-Library.Log_Nat"
begin

section \<open>Data model (types.ts)\<close>

text \<open>
  \<^verbatim>\<open>AccountType\<close> is a TypeScript string enum: at run time a section is the string itself,
  and \<^verbatim>\<open>classifyAccounts\<close> stores whatever string the classification service returned
  (the cast \<^verbatim>\<open>as AccountType\<close> checks nothing). A section is therefore a string, and the
  six members of the enum are constants.

  Strings: one \<open>char\<close> stands for one UTF-16 code unit below 256, so the accented letters
  of the source are single characters (\<open>CHR 0xE9\<close> is e-acute, \<open>CHR 0xF3\<close> is o-acute).

  Numbers: a JavaScript number is modelled by its exact value, a rational (see the
  section on numbers below).
\<close>

type_synonym AccountType = string

definition ASSET :: AccountType where "ASSET = ''ACTIVO''"
definition LIABILITY :: AccountType where "LIABILITY = ''PASIVO''"
definition EQUITY :: AccountType where "EQUITY = ''PATRIMONIO_NETO''"
definition REVENUE :: AccountType where "REVENUE = ''INGRESOS''"
definition EXPENSE :: AccountType where "EXPENSE = ''EGRESOS''"
definition UNCLASSIFIED :: AccountType where "UNCLASSIFIED = ''SIN_CLASIFICAR''"

text \<open>\<^verbatim>\<open>interface AccountLine\<close>; the field \<^verbatim>\<open>id\<close> is \<open>id'\<close> here (\<open>id\<close> is HOL's identity).\<close>

record AccountLine =
  id' :: string
  code :: string
  name :: string
  debit :: rat
  credit :: rat
  balance :: rat
  type :: AccountType
  category :: string
  isGroup :: bool
  manualOverride :: bool

text \<open>\<^verbatim>\<open>interface Inconsistency\<close>.\<close>

datatype Severity = high | medium | low

record Inconsistency =
  inc_id :: string
  severity :: Severity
  message :: string
  relatedAccountIds :: "string list"

section \<open>JavaScript numbers\<close>

text \<open>
  A JavaScript number is an IEEE 754 binary64 value (a double). A finite double is
  modelled by its exact value, a rational; NaN and the infinities are outside the model,
  and so is an addition that overflows to one (\<open>roundDouble\<close> has no largest exponent).
  \<open>roundDouble\<close> is the rounding every arithmetic operation of a double ends with: to
  the nearest double, a tie going to the one with the even significand. A double has 53
  significant bits, so for a value of binary exponent \<open>e\<close> (at least \<open>-1022\<close>, below
  that the doubles are subnormal and equally spaced) the doubles are the multiples of
  \<open>2^(e - 52)\<close>.

  The \<^verbatim>\<open>reduce\<close> folds add many numbers, and each addition rounds: they are written with
  \<open>fadd\<close>, and \<open>floatSum\<close> is the sum as such a fold computes it. A single subtraction is
  written exactly; its double is the rounding of that value.
\<close>

definition roundHalfEven :: "rat \<Rightarrow> int" where
  "roundHalfEven x =
     (let n = \<lfloor>x\<rfloor>; r = x - of_int n in
      if r < 1 / 2 then n else if 1 / 2 < r then n + 1 else if even n then n else n + 1)"

text \<open>\<open>\<lfloor>log\<^sub>2 x\<rfloor>\<close> for a positive \<open>x\<close>, and the powers of two.\<close>

definition ilog2 :: "rat \<Rightarrow> int" where
  "ilog2 x = (if 1 \<le> x then bitlen \<lfloor>x\<rfloor> - 1 else - bitlen (\<lceil>1 / x\<rceil> - 1))"

definition pow2 :: "int \<Rightarrow> rat" where
  "pow2 e = (if 0 \<le> e then 2 ^ nat e else 1 / 2 ^ nat (- e))"

definition roundDouble :: "rat \<Rightarrow> rat" where
  "roundDouble x =
     (if x = 0 then 0
      else let e = max (ilog2 \<bar>x\<bar>) (- 1022); q = pow2 (e - 52)
           in of_int (roundHalfEven (x / q)) * q)"

text \<open>\<^verbatim>\<open>x + y\<close> on doubles, and \<^verbatim>\<open>xs.reduce((s, x) => s + x, 0)\<close>.\<close>

definition fadd :: "rat \<Rightarrow> rat \<Rightarrow> rat" where
  "fadd x y = roundDouble (x + y)"

definition floatSum :: "rat list \<Rightarrow> rat" where
  "floatSum xs = foldl fadd 0 xs"

section \<open>Line Editor (FinancialWorkspace: manual editing functions)\<close>

text \<open>
  \<^verbatim>\<open>handleDeleteAccount(id)\<close>: the state update \<^verbatim>\<open>prev.filter(a => a.id !== id)\<close> runs only
  when \<^verbatim>\<open>window.confirm\<close> returned true; the answer of the dialog is the first argument.
\<close>

definition handleDeleteAccount :: "bool \<Rightarrow> string \<Rightarrow> AccountLine list \<Rightarrow> AccountLine list" where
  "handleDeleteAccount confirmed i prev =
     (if confirmed then filter (\<lambda>a. id' a \<noteq> i) prev else prev)"

text \<open>
  \<^verbatim>\<open>handleManualEdit(id, field: keyof AccountLine, value: any)\<close>. The pair of the field and
  its new value is one constructor per key of \<^verbatim>\<open>AccountLine\<close>, the value typed as the
  interface types that field.
\<close>

datatype FieldEdit =
    EditId string
  | EditCode string
  | EditName string
  | EditDebit rat
  | EditCredit rat
  | EditBalance rat
  | EditType AccountType
  | EditCategory string
  | EditIsGroup bool
  | EditManualOverride bool

text \<open>\<^verbatim>\<open>{ ...acc, [field]: value }\<close>\<close>

fun setField :: "FieldEdit \<Rightarrow> AccountLine \<Rightarrow> AccountLine" where
  "setField (EditId v) acc = acc\<lparr>id' := v\<rparr>"
| "setField (EditCode v) acc = acc\<lparr>code := v\<rparr>"
| "setField (EditName v) acc = acc\<lparr>name := v\<rparr>"
| "setField (EditDebit v) acc = acc\<lparr>debit := v\<rparr>"
| "setField (EditCredit v) acc = acc\<lparr>credit := v\<rparr>"
| "setField (EditBalance v) acc = acc\<lparr>balance := v\<rparr>"
| "setField (EditType v) acc = acc\<lparr>type := v\<rparr>"
| "setField (EditCategory v) acc = acc\<lparr>category := v\<rparr>"
| "setField (EditIsGroup v) acc = acc\<lparr>isGroup := v\<rparr>"
| "setField (EditManualOverride v) acc = acc\<lparr>manualOverride := v\<rparr>"

text \<open>
  The body of the \<^verbatim>\<open>map\<close> callback for a line whose id matches. \<^verbatim>\<open>manualOverride: true\<close>
  is written after \<^verbatim>\<open>[field]: value\<close>, so it wins. For \<^verbatim>\<open>debit\<close> and \<^verbatim>\<open>credit\<close> the
  balance is recomputed; \<^verbatim>\<open>updated.debit || 0\<close> is the field itself on numbers that are
  not NaN.
\<close>

definition editLine :: "FieldEdit \<Rightarrow> AccountLine \<Rightarrow> AccountLine" where
  "editLine e acc =
     (let updated = (setField e acc)\<lparr>manualOverride := True\<rparr> in
      case e of
        EditDebit v \<Rightarrow> updated\<lparr>balance := v - credit updated\<rparr>
      | EditCredit v \<Rightarrow> updated\<lparr>balance := debit updated - v\<rparr>
      | _ \<Rightarrow> updated)"

definition handleManualEdit :: "string \<Rightarrow> FieldEdit \<Rightarrow> AccountLine list \<Rightarrow> AccountLine list" where
  "handleManualEdit i e prev = map (\<lambda>acc. if id' acc = i then editLine e acc else acc) prev"

text \<open>\<^verbatim>\<open>handleAddAccount\<close>; the fresh id is what \<^verbatim>\<open>crypto.randomUUID()\<close> returned.\<close>

definition handleAddAccount :: "string \<Rightarrow> AccountLine list \<Rightarrow> AccountLine list" where
  "handleAddAccount uuid prev =
     \<lparr>id' = uuid, code = [], name = ''Nueva Cuenta'', debit = 0, credit = 0, balance = 0,
      type = UNCLASSIFIED, category = ''Otros'', isGroup = False, manualOverride = True\<rparr> # prev"

text \<open>A line for the scenarios: section, name and balance given, everything else plain.\<close>

definition exampleLine :: "string \<Rightarrow> AccountType \<Rightarrow> string \<Rightarrow> rat \<Rightarrow> AccountLine" where
  "exampleLine i t n b =
     \<lparr>id' = i, code = [], name = n, debit = 0, credit = 0, balance = b,
      type = t, category = ''Otros'', isGroup = False, manualOverride = False\<rparr>"

text \<open>A line of the category (rubro) \<open>c\<close>, named after it.\<close>

definition rubroLine :: "string \<Rightarrow> AccountType \<Rightarrow> string \<Rightarrow> rat \<Rightarrow> AccountLine" where
  "rubroLine i t c b = (exampleLine i t c b)\<lparr>category := c\<rparr>"

section \<open>Consistency Checker (FinancialWorkspace: inconsistencies)\<close>

text \<open>
  \<^verbatim>\<open>Number.prototype.toFixed(f)\<close> on an exact value, as ECMAScript defines it: the sign is
  split off; a magnitude of at least \<open>10^21\<close> is printed by \<^verbatim>\<open>Number::toString\<close> (a
  parameter: its digits are those of the double); otherwise \<open>n\<close> is the integer nearest
  to \<open>x * 10^f\<close> (the larger one of two), printed with at least \<open>f + 1\<close> digits and a
  point before the last \<open>f\<close>.
\<close>

definition digitChar :: "nat \<Rightarrow> char" where
  "digitChar d = ''0123456789'' ! d"

fun digits :: "nat \<Rightarrow> string" where
  "digits n = (if n < 10 then [digitChar n] else digits (n div 10) @ [digitChar (n mod 10)])"

declare digits.simps [simp del]

definition toFixed :: "(rat \<Rightarrow> string) \<Rightarrow> nat \<Rightarrow> rat \<Rightarrow> string" where
  "toFixed numberToString f x =
     (let s = (if x < 0 then ''-'' else []); x = (if x < 0 then - x else x) in
      if x \<ge> 10 ^ 21 then s @ numberToString x
      else
        let n = nat \<lfloor>x * 10 ^ f + 1 / 2\<rfloor>;
            m = digits n;
            m = (if f \<noteq> 0 \<and> length m \<le> f then replicate (f + 1 - length m) CHR ''0'' @ m else m);
            k = length m
        in if f \<noteq> 0 then s @ take (k - f) m @ ''.'' @ drop (k - f) m else s @ m)"

text \<open>
  The memoised \<^verbatim>\<open>inconsistencies\<close> value: \<^verbatim>\<open>grandTotal\<close> is the \<^verbatim>\<open>reduce\<close> over the lines
  that are not groups, and one finding is pushed when its absolute value exceeds 1.
\<close>

definition grandTotal :: "AccountLine list \<Rightarrow> rat" where
  "grandTotal accounts = foldl (\<lambda>s a. fadd s (balance a)) 0 (filter (\<lambda>a. \<not> isGroup a) accounts)"

definition inconsistencies :: "(rat \<Rightarrow> string) \<Rightarrow> AccountLine list \<Rightarrow> Inconsistency list" where
  "inconsistencies numberToString accounts =
     (if \<bar>grandTotal accounts\<bar> > 1 then
        [\<lparr>inc_id = ''diff-balance'', severity = high,
          message = ''El balance no da cero (Diferencia: '' @
                    toFixed numberToString 2 (grandTotal accounts) @ ''). Revisar asientos.'',
          relatedAccountIds = []\<rparr>]
      else [])"

section \<open>Classification Merger (geminiService: classifyAccounts)\<close>

text \<open>
  \<^verbatim>\<open>Partial<AccountLine>\<close>: every field may be missing. \<^verbatim>\<open>classifyAccounts\<close> reads these
  five fields of a raw line and no other.
\<close>

record PartialAccountLine =
  p_code :: "string option"
  p_name :: "string option"
  p_debit :: "rat option"
  p_credit :: "rat option"
  p_balance :: "rat option"

text \<open>
  One object of the array the classification service returned (\<^verbatim>\<open>item\<close> in
  \<^verbatim>\<open>result.forEach\<close>). The \<^verbatim>\<open>id\<close> is the key of \<^verbatim>\<open>classificationMap\<close>, a
  \<^verbatim>\<open>Record<number, ...>\<close>; an id that is no index of a raw line (negative, too large)
  is never looked up.
\<close>

record ClassificationItem =
  item_id :: int
  item_type :: "string option"
  item_category :: "string option"
  item_isGroup :: "bool option"

record ClassificationEntry =
  entry_type :: "string option"
  entry_category :: string
  entry_isGroup :: "bool option"

text \<open>\<^verbatim>\<open>x || d\<close> on an optional string, number and boolean: the falsy values give \<open>d\<close>.\<close>

definition orString :: "string option \<Rightarrow> string \<Rightarrow> string" where
  "orString x d = (case x of None \<Rightarrow> d | Some s \<Rightarrow> if s = [] then d else s)"

definition orNumber :: "rat option \<Rightarrow> rat \<Rightarrow> rat" where
  "orNumber x d = (case x of None \<Rightarrow> d | Some v \<Rightarrow> if v = 0 then d else v)"

definition orBool :: "bool option \<Rightarrow> bool \<Rightarrow> bool" where
  "orBool x d = (case x of None \<Rightarrow> d | Some b \<Rightarrow> if b then True else d)"

text \<open>The \<^verbatim>\<open>forEach\<close> that fills \<^verbatim>\<open>classificationMap\<close>: a later item with the same id wins.\<close>

definition classificationMap :: "ClassificationItem list \<Rightarrow> (int \<rightharpoonup> ClassificationEntry)" where
  "classificationMap result =
     foldl (\<lambda>m item. m(item_id item \<mapsto>
              \<lparr>entry_type = item_type item,
               entry_category = orString (item_category item) ''Otros'',
               entry_isGroup = item_isGroup item\<rparr>))
       Map.empty result"

text \<open>
  The callback of \<^verbatim>\<open>accounts.map((acc, index) => ...)\<close>. \<^verbatim>\<open>uuid\<close> is the value
  \<^verbatim>\<open>crypto.randomUUID()\<close> returned for this line. In the \<^verbatim>\<open>balance\<close> line \<^verbatim>\<open>||\<close> binds
  weaker than \<^verbatim>\<open>-\<close>: the alternative is the whole difference.
\<close>

definition mergeLine :: "(int \<rightharpoonup> ClassificationEntry) \<Rightarrow> string \<Rightarrow> nat \<Rightarrow> PartialAccountLine \<Rightarrow> AccountLine" where
  "mergeLine cmap uuid index acc =
     \<lparr>id' = uuid,
      code = orString (p_code acc) [],
      name = orString (p_name acc) ''Cuenta Desconocida'',
      debit = orNumber (p_debit acc) 0,
      credit = orNumber (p_credit acc) 0,
      balance = orNumber (p_balance acc) (orNumber (p_debit acc) 0 - orNumber (p_credit acc) 0),
      type = orString (Option.bind (cmap (int index)) entry_type) UNCLASSIFIED,
      category = orString (map_option entry_category (cmap (int index))) ''Sin Clasificar'',
      isGroup = orBool (Option.bind (cmap (int index)) entry_isGroup) False,
      manualOverride = False\<rparr>"

text \<open>The callback of the \<^verbatim>\<open>catch\<close> branch.\<close>

definition errorLine :: "string \<Rightarrow> PartialAccountLine \<Rightarrow> AccountLine" where
  "errorLine uuid acc =
     \<lparr>id' = uuid,
      code = orString (p_code acc) [],
      name = orString (p_name acc) (''Error Clasificaci'' @ [CHR 0xF3] @ ''n''),
      debit = orNumber (p_debit acc) 0,
      credit = orNumber (p_credit acc) 0,
      balance = orNumber (p_balance acc) 0,
      type = UNCLASSIFIED,
      category = ''Error'',
      isGroup = False,
      manualOverride = False\<rparr>"

text \<open>
  \<^verbatim>\<open>classifyAccounts\<close> from the point where the service has answered. \<open>response\<close> is
  \<open>Some result\<close> when the answer parsed to an array of items, and \<open>None\<close> when the call
  or the parse threw (the \<^verbatim>\<open>catch\<close> branch). \<open>randomUUID k\<close> is the value of the
  \<open>k\<close>-th call of \<^verbatim>\<open>crypto.randomUUID()\<close>; \<^verbatim>\<open>map\<close> calls it once per line, in order.
\<close>

definition classifyAccounts ::
  "(nat \<Rightarrow> string) \<Rightarrow> PartialAccountLine list \<Rightarrow> ClassificationItem list option \<Rightarrow> AccountLine list" where
  "classifyAccounts randomUUID accounts response =
     (case response of
        Some result \<Rightarrow>
          map (\<lambda>(index, acc). mergeLine (classificationMap result) (randomUUID index) index acc)
            (zip [0..<length accounts] accounts)
      | None \<Rightarrow>
          map (\<lambda>(index, acc). errorLine (randomUUID index) acc)
            (zip [0..<length accounts] accounts))"

section \<open>Row Extractor (geminiService: parseFinancialDocument, spreadsheet branch)\<close>

text \<open>
  A cell of the array of arrays \<^verbatim>\<open>sheet_to_json(worksheet, {header: 1})\<close> returns: a
  string, a number, a boolean, or nothing (\<^verbatim>\<open>undefined\<close>: an empty cell, or an index
  outside the row).
\<close>

datatype cell = CUndefined | CString string | CNumber rat | CBoolean bool

text \<open>
  The mapping object parsed from the service's answer. An index that is missing from
  the object fails \<^verbatim>\<open>> -1\<close> as \<open>-1\<close> does, and a missing \<^verbatim>\<open>startRow\<close> is 0 by
  \<^verbatim>\<open>mapping.startRow || 0\<close>.
\<close>

record ColumnMapping =
  codeIndex :: int
  nameIndex :: int
  debitIndex :: int
  creditIndex :: int
  balanceIndex :: int
  startRow :: int

text \<open>\<^verbatim>\<open>row[i]\<close>: \<^verbatim>\<open>undefined\<close> outside the row.\<close>

definition nthCell :: "cell list \<Rightarrow> int \<Rightarrow> cell" where
  "nthCell row i = (if 0 \<le> i \<and> nat i < length row then row ! nat i else CUndefined)"

text \<open>
  \<^verbatim>\<open>String(v)\<close>; the digits of a number are \<^verbatim>\<open>Number::toString\<close>'s, a parameter of the
  extraction.
\<close>

definition jsString :: "(rat \<Rightarrow> string) \<Rightarrow> cell \<Rightarrow> string" where
  "jsString numberToString v =
     (case v of
        CUndefined \<Rightarrow> ''undefined''
      | CString s \<Rightarrow> s
      | CNumber n \<Rightarrow> numberToString n
      | CBoolean b \<Rightarrow> if b then ''true'' else ''false'')"

text \<open>\<^verbatim>\<open>String(v || '')\<close>: the empty string for a falsy cell.\<close>

definition truthy :: "cell \<Rightarrow> bool" where
  "truthy v =
     (case v of CUndefined \<Rightarrow> False | CString s \<Rightarrow> s \<noteq> [] | CNumber n \<Rightarrow> n \<noteq> 0 | CBoolean b \<Rightarrow> b)"

definition stringOrEmpty :: "(rat \<Rightarrow> string) \<Rightarrow> cell \<Rightarrow> string" where
  "stringOrEmpty numberToString v = (if truthy v then jsString numberToString v else [])"

text \<open>
  \<^verbatim>\<open>String.prototype.trim\<close>: the white space and line terminators of ECMAScript among
  the code units below 256 (tab, line feed, vertical tab, form feed, carriage return,
  space, no-break space).
\<close>

definition isWhiteSpace :: "char \<Rightarrow> bool" where
  "isWhiteSpace c = (c \<in> set [CHR 0x09, CHR 0x0A, CHR 0x0B, CHR 0x0C, CHR 0x0D, CHR 0x20, CHR 0xA0])"

definition trim :: "string \<Rightarrow> string" where
  "trim s = rev (dropWhile isWhiteSpace (rev (dropWhile isWhiteSpace s)))"

text \<open>\<^verbatim>\<open>.replace(/[^0-9.-]/g, '')\<close>\<close>

definition isDigit :: "char \<Rightarrow> bool" where
  "isDigit c = (c \<in> set ''0123456789'')"

definition stripNonNumeric :: "string \<Rightarrow> string" where
  "stripNonNumeric s = filter (\<lambda>c. isDigit c \<or> c = CHR ''.'' \<or> c = CHR ''-'') s"

text \<open>
  \<^verbatim>\<open>parseFloat\<close> on a string of digits, points and minus signs (all that is left after
  the replacement above, so white space, \<^verbatim>\<open>+\<close>, exponents and \<^verbatim>\<open>Infinity\<close> cannot occur):
  an optional minus sign, then the longest prefix \<^verbatim>\<open>digits [. digits]\<close> or \<^verbatim>\<open>. digits\<close>;
  \<open>None\<close> is NaN, when that prefix has no digit.
\<close>

definition decimal :: "string \<Rightarrow> nat" where
  "decimal ds = foldl (\<lambda>n c. 10 * n + (of_char c - 48)) 0 ds"

definition parseFloat :: "string \<Rightarrow> rat option" where
  "parseFloat s =
     (let neg = (case s of [] \<Rightarrow> False | c # _ \<Rightarrow> c = CHR ''-'');
          r = (if neg then tl s else s);
          ip = takeWhile isDigit r;
          fp = (case dropWhile isDigit r of
                  [] \<Rightarrow> []
                | c # t \<Rightarrow> if c = CHR ''.'' then takeWhile isDigit t else [])
      in if ip = [] \<and> fp = [] then None
         else Some ((if neg then - 1 else 1) *
                    (of_nat (decimal ip) + of_nat (decimal fp) / 10 ^ length fp)))"

text \<open>\<^verbatim>\<open>parseFloat(String(v).replace(/[^0-9.-]/g, '')) || 0\<close>\<close>

definition parseNumber :: "(rat \<Rightarrow> string) \<Rightarrow> cell \<Rightarrow> rat" where
  "parseNumber numberToString v =
     orNumber (parseFloat (stripNonNumeric (jsString numberToString v))) 0"

text \<open>The \<^verbatim>\<open>name\<close> and \<^verbatim>\<open>code\<close> of a row.\<close>

definition rowName :: "(rat \<Rightarrow> string) \<Rightarrow> ColumnMapping \<Rightarrow> cell list \<Rightarrow> string" where
  "rowName numberToString mapping row =
     (if nameIndex mapping > - 1 then trim (stringOrEmpty numberToString (nthCell row (nameIndex mapping)))
      else [])"

definition rowCode :: "(rat \<Rightarrow> string) \<Rightarrow> ColumnMapping \<Rightarrow> cell list \<Rightarrow> string" where
  "rowCode numberToString mapping row =
     (if codeIndex mapping > - 1 then stringOrEmpty numberToString (nthCell row (codeIndex mapping))
      else [])"

text \<open>
  \<^verbatim>\<open>debit\<close>, \<^verbatim>\<open>credit\<close> and \<^verbatim>\<open>balance\<close> of a row (\<open>d\<close>, \<open>c\<close>, \<open>b\<close>): the three start at 0
  and the branch for the mapped columns assigns them.
\<close>

definition rowAmounts :: "(rat \<Rightarrow> string) \<Rightarrow> ColumnMapping \<Rightarrow> cell list \<Rightarrow> rat \<times> rat \<times> rat" where
  "rowAmounts numberToString mapping row =
     (if debitIndex mapping > - 1 \<and> creditIndex mapping > - 1 then
        (let d = parseNumber numberToString (nthCell row (debitIndex mapping));
             c = parseNumber numberToString (nthCell row (creditIndex mapping))
         in (d, c, d - c))
      else if balanceIndex mapping > - 1 then
        (let b = parseNumber numberToString (nthCell row (balanceIndex mapping))
         in if b > 0 then (b, 0, b) else (0, \<bar>b\<bar>, b))
      else (0, 0, 0))"

text \<open>The object pushed for a row that is kept.\<close>

definition rowLine :: "(rat \<Rightarrow> string) \<Rightarrow> ColumnMapping \<Rightarrow> cell list \<Rightarrow> PartialAccountLine" where
  "rowLine numberToString mapping row =
     (case rowAmounts numberToString mapping row of
        (d, c, b) \<Rightarrow>
          \<lparr>p_code = Some (rowCode numberToString mapping row),
           p_name = Some (rowName numberToString mapping row),
           p_debit = Some d, p_credit = Some c, p_balance = Some b\<rparr>)"

text \<open>
  One turn of the loop body: \<open>None\<close> is \<^verbatim>\<open>continue\<close> (an empty row, or an empty name).
\<close>

definition extractRow :: "(rat \<Rightarrow> string) \<Rightarrow> ColumnMapping \<Rightarrow> cell list \<Rightarrow> PartialAccountLine option" where
  "extractRow numberToString mapping row =
     (if row = [] then None
      else if rowName numberToString mapping row = [] then None
      else Some (rowLine numberToString mapping row))"

text \<open>
  \<^verbatim>\<open>for (let i = mapping.startRow || 0; i < rows.length; i++)\<close>. At a negative \<open>i\<close>,
  \<^verbatim>\<open>rows[i]\<close> is \<^verbatim>\<open>undefined\<close> and the turn is skipped.
\<close>

function extractLoop ::
  "(rat \<Rightarrow> string) \<Rightarrow> ColumnMapping \<Rightarrow> cell list list \<Rightarrow> int \<Rightarrow> PartialAccountLine list \<Rightarrow> PartialAccountLine list" where
  "extractLoop numberToString mapping rows i extractedLines =
     (if i < int (length rows) then
        extractLoop numberToString mapping rows (i + 1)
          (extractedLines @
             (if i < 0 then []
              else case extractRow numberToString mapping (rows ! nat i) of
                     None \<Rightarrow> []
                   | Some l \<Rightarrow> [l]))
      else extractedLines)"
  by pat_completeness auto
termination
  by (relation "measure (\<lambda>(numberToString, mapping, rows, i, extractedLines). nat (int (length rows) - i))") auto

declare extractLoop.simps [simp del]

text \<open>
  The spreadsheet branch of \<^verbatim>\<open>parseFinancialDocument\<close> from the point where the sheet
  has been read into \<open>rows\<close> and the mapping has been parsed.
\<close>

definition parseFinancialDocument ::
  "(rat \<Rightarrow> string) \<Rightarrow> ColumnMapping \<Rightarrow> cell list list \<Rightarrow> PartialAccountLine list" where
  "parseFinancialDocument numberToString mapping rows =
     (if rows = [] then [] else extractLoop numberToString mapping rows (startRow mapping) [])"

section \<open>Statement Aggregator (FinancialWorkspace: groupedFinancials)\<close>

text \<open>
  \<^verbatim>\<open>groups\<close> is a plain object used as a dictionary from category to lines. An object
  keeps its string keys in insertion order, so it is an association list here; a key is
  added at the end, and \<^verbatim>\<open>push\<close> appends to the list of an existing key.
\<close>

type_synonym groups = "(string \<times> AccountLine list) list"

datatype error = TypeError

fun pushGroup :: "string \<Rightarrow> AccountLine \<Rightarrow> groups \<Rightarrow> groups" where
  "pushGroup cat acc [] = [(cat, [acc])]"
| "pushGroup cat acc ((k, v) # rest) =
     (if k = cat then (k, v @ [acc]) # rest else (k, v) # pushGroup cat acc rest)"

text \<open>
  \<^verbatim>\<open>groups\<close> is created by \<^verbatim>\<open>{}\<close>, so it inherits the properties of
  \<^verbatim>\<open>Object.prototype\<close>. For a category with one of these names \<^verbatim>\<open>groups[cat]\<close> is the
  inherited function or object, which is truthy: no array is stored, and
  \<^verbatim>\<open>groups[cat].push(acc)\<close> calls \<^verbatim>\<open>undefined\<close>, a \<^verbatim>\<open>TypeError\<close>.
\<close>

definition objectPrototypeKeys :: "string list" where
  "objectPrototypeKeys =
     [''constructor'', ''__defineGetter__'', ''__defineSetter__'', ''hasOwnProperty'',
      ''__lookupGetter__'', ''__lookupSetter__'', ''isPrototypeOf'', ''propertyIsEnumerable'',
      ''toString'', ''valueOf'', ''__proto__'', ''toLocaleString'']"

text \<open>\<^verbatim>\<open>acc.category || 'Otros'\<close>\<close>

definition categoryOf :: "AccountLine \<Rightarrow> string" where
  "categoryOf acc = (if category acc = [] then ''Otros'' else category acc)"

text \<open>The \<^verbatim>\<open>filtered.forEach\<close> that fills \<^verbatim>\<open>groups\<close>.\<close>

fun groupLines :: "AccountLine list \<Rightarrow> groups \<Rightarrow> error + groups" where
  "groupLines [] groups = Inr groups"
| "groupLines (acc # rest) groups =
     (if categoryOf acc \<in> set objectPrototypeKeys then Inl TypeError
      else groupLines rest (pushGroup (categoryOf acc) acc groups))"

text \<open>
  \<^verbatim>\<open>Object.keys(groups)\<close>: the own keys that are array indices (the canonical decimal
  strings of the integers below \<open>2^32 - 1\<close>) in ascending numeric order, then the other
  keys in insertion order.
\<close>

definition isArrayIndex :: "string \<Rightarrow> bool" where
  "isArrayIndex s =
     (s \<noteq> [] \<and> list_all isDigit s \<and> (s = ''0'' \<or> hd s \<noteq> CHR ''0'') \<and> decimal s < 2 ^ 32 - 1)"

definition ownKeyOrder :: "string list \<Rightarrow> string list" where
  "ownKeyOrder ks = sort_key decimal (filter isArrayIndex ks) @ filter (\<lambda>k. \<not> isArrayIndex k) ks"

definition objectKeys :: "groups \<Rightarrow> string list" where
  "objectKeys groups = ownKeyOrder (map fst groups)"

text \<open>
  \<^verbatim>\<open>defaultOrderMap\<close>. Only own keys of \<^verbatim>\<open>groups\<close> are looked up, and none of them is
  a property of \<^verbatim>\<open>Object.prototype\<close>, so a lookup finds the table's entry or nothing.
\<close>

definition defaultOrderTable :: "(string \<times> int) list" where
  "defaultOrderTable =
     [(''Caja y Bancos'', 1), (''Inversiones'', 2), (''Cr'' @ [CHR 0xE9] @ ''ditos por Ventas'', 3),
      (''Otros Cr'' @ [CHR 0xE9] @ ''ditos'', 4), (''Bienes de Cambio'', 5), (''Bienes de Uso'', 6),
      (''Activos Intangibles'', 7),
      (''Deudas Comerciales'', 1), (''Deudas Bancarias'', 2), (''Deudas Sociales y Fiscales'', 3),
      (''Otras Deudas'', 4), (''Previsiones'', 5),
      (''Capital Social'', 1), (''Reservas'', 2), (''Resultados Acumulados'', 3)]"

definition defaultOrderMap :: "string \<rightharpoonup> int" where
  "defaultOrderMap = map_of defaultOrderTable"

text \<open>\<^verbatim>\<open>defaultOrderMap[a] || 99\<close>: 99 for a missing entry (and for an entry 0; there is none).\<close>

definition categoryRank :: "string \<Rightarrow> int" where
  "categoryRank a = (case defaultOrderMap a of None \<Rightarrow> 99 | Some n \<Rightarrow> if n = 0 then 99 else n)"

text \<open>
  \<^verbatim>\<open>client.customRegulations || (globalModel && globalModel.length > 0)\<close>, both optional
  strings: true when one of them is a non-empty string.
\<close>

definition hasCustomModel :: "string option \<Rightarrow> string option \<Rightarrow> bool" where
  "hasCustomModel customRegulations globalModel =
     ((case customRegulations of None \<Rightarrow> False | Some s \<Rightarrow> s \<noteq> []) \<or>
      (case globalModel of None \<Rightarrow> False | Some s \<Rightarrow> s \<noteq> [] \<and> length s > 0))"

text \<open>
  The comparator given to \<^verbatim>\<open>sort\<close>. \<^verbatim>\<open>orderA && orderB\<close>, \<^verbatim>\<open>if (orderA)\<close> and
  \<^verbatim>\<open>if (orderB)\<close> test for a truthy rank: an entry that exists and is not 0.
  \<^verbatim>\<open>a.localeCompare(b)\<close> is the collation of the host's locale, a parameter.
\<close>

definition truthyRank :: "int option \<Rightarrow> bool" where
  "truthyRank r = (case r of None \<Rightarrow> False | Some n \<Rightarrow> n \<noteq> 0)"

definition compareCategories :: "bool \<Rightarrow> (string \<Rightarrow> string \<Rightarrow> int) \<Rightarrow> string \<Rightarrow> string \<Rightarrow> int" where
  "compareCategories custom localeCompare a b =
     (if custom then
        (let orderA = defaultOrderMap a; orderB = defaultOrderMap b in
         if truthyRank orderA \<and> truthyRank orderB then the orderA - the orderB
         else if truthyRank orderA then - 1
         else if truthyRank orderB then 1
         else localeCompare a b)
      else categoryRank a - categoryRank b)"

text \<open>
  \<^verbatim>\<open>Array.prototype.sort(compare)\<close>. ECMAScript requires the sort to be stable, and for
  a consistent comparator the result is then the same for every algorithm; the model
  is the stable insertion sort (\<open>x\<close> goes before the first \<open>y\<close> with
  \<open>compare x y \<le> 0\<close>).
\<close>

fun insertBy :: "('a \<Rightarrow> 'a \<Rightarrow> int) \<Rightarrow> 'a \<Rightarrow> 'a list \<Rightarrow> 'a list" where
  "insertBy compare x [] = [x]"
| "insertBy compare x (y # ys) =
     (if compare x y \<le> 0 then x # y # ys else y # insertBy compare x ys)"

definition sortBy :: "('a \<Rightarrow> 'a \<Rightarrow> int) \<Rightarrow> 'a list \<Rightarrow> 'a list" where
  "sortBy compare xs = foldr (insertBy compare) xs []"

text \<open>
  One element of \<^verbatim>\<open>sortedCategories.map(cat => ({name, accounts, total}))\<close>. A category
  without an entry in \<^verbatim>\<open>groups\<close> would make \<^verbatim>\<open>groups[cat].reduce\<close> throw.
\<close>

record CategoryGroup =
  g_name :: string
  g_accounts :: "AccountLine list"
  g_total :: rat

definition mkGroup :: "groups \<Rightarrow> string \<Rightarrow> error + CategoryGroup" where
  "mkGroup groups cat =
     (case map_of groups cat of
        None \<Rightarrow> Inl TypeError
      | Some accs \<Rightarrow>
          Inr \<lparr>g_name = cat, g_accounts = accs, g_total = foldl (\<lambda>sum a. fadd sum (balance a)) 0 accs\<rparr>)"

fun mapE :: "('a \<Rightarrow> error + 'b) \<Rightarrow> 'a list \<Rightarrow> error + 'b list" where
  "mapE f [] = Inr []"
| "mapE f (x # xs) =
     (case f x of
        Inl e \<Rightarrow> Inl e
      | Inr y \<Rightarrow> (case mapE f xs of Inl e \<Rightarrow> Inl e | Inr ys \<Rightarrow> Inr (y # ys)))"

text \<open>\<^verbatim>\<open>accounts.filter(a => a.type === type && !a.isGroup)\<close>\<close>

definition filtered :: "AccountType \<Rightarrow> AccountLine list \<Rightarrow> AccountLine list" where
  "filtered t accounts = filter (\<lambda>a. type a = t \<and> \<not> isGroup a) accounts"

definition groupByTypeAndCategory ::
  "bool \<Rightarrow> (string \<Rightarrow> string \<Rightarrow> int) \<Rightarrow> AccountLine list \<Rightarrow> AccountType \<Rightarrow> error + CategoryGroup list" where
  "groupByTypeAndCategory custom localeCompare accounts t =
     (case groupLines (filtered t accounts) [] of
        Inl e \<Rightarrow> Inl e
      | Inr groups \<Rightarrow>
          (let sortedCategories = sortBy (compareCategories custom localeCompare) (objectKeys groups)
           in mapE (mkGroup groups) sortedCategories))"

text \<open>The value of the \<^verbatim>\<open>groupedFinancials\<close> memo.\<close>

record GroupedFinancials =
  assets :: "CategoryGroup list"
  assetsTotal :: rat
  liabilities :: "CategoryGroup list"
  liabilitiesTotal :: rat
  equity :: "CategoryGroup list"
  equityTotal :: rat
  revenue :: "CategoryGroup list"
  revenueTotal :: rat
  expenses :: "CategoryGroup list"
  expenseTotal :: rat
  netResult :: rat

definition sectionTotal :: "CategoryGroup list \<Rightarrow> rat" where
  "sectionTotal gs = foldl (\<lambda>s g. fadd s (g_total g)) 0 gs"

text \<open>An exception thrown by one step ends the computation: the rest is not run.\<close>

definition bindE :: "error + 'a \<Rightarrow> ('a \<Rightarrow> error + 'b) \<Rightarrow> error + 'b" where
  "bindE m f = (case m of Inl e \<Rightarrow> Inl e | Inr x \<Rightarrow> f x)"

definition groupedFinancials ::
  "string option \<Rightarrow> string option \<Rightarrow> (string \<Rightarrow> string \<Rightarrow> int) \<Rightarrow> AccountLine list \<Rightarrow> error + GroupedFinancials" where
  "groupedFinancials customRegulations globalModel localeCompare accounts =
     (let custom = hasCustomModel customRegulations globalModel in
      bindE (groupByTypeAndCategory custom localeCompare accounts ASSET) (\<lambda>as.
      bindE (groupByTypeAndCategory custom localeCompare accounts LIABILITY) (\<lambda>ls.
      bindE (groupByTypeAndCategory custom localeCompare accounts EQUITY) (\<lambda>es.
      bindE (groupByTypeAndCategory custom localeCompare accounts REVENUE) (\<lambda>rs.
      bindE (groupByTypeAndCategory custom localeCompare accounts EXPENSE) (\<lambda>xs.
        Inr \<lparr>assets = as, assetsTotal = sectionTotal as,
             liabilities = ls, liabilitiesTotal = sectionTotal ls,
             equity = es, equityTotal = sectionTotal es,
             revenue = rs, revenueTotal = sectionTotal rs,
             expenses = xs, expenseTotal = sectionTotal xs,
             netResult = \<bar>sectionTotal rs\<bar> - \<bar>sectionTotal xs\<bar>\<rparr>))))))"

text \<open>The five sections of a statement, and all the lines their groups hold.\<close>

definition sectionsOf :: "GroupedFinancials \<Rightarrow> (AccountType \<times> CategoryGroup list) list" where
  "sectionsOf st =
     [(ASSET, assets st), (LIABILITY, liabilities st), (EQUITY, equity st),
      (REVENUE, revenue st), (EXPENSE, expenses st)]"

definition statementLines :: "GroupedFinancials \<Rightarrow> AccountLine list" where
  "statementLines st = concat (map g_accounts (concat (map snd (sectionsOf st))))"

text \<open>
  Following the spec's words, for comparison with the code: the discovery order of the
  categories of a sequence of lines is the order in which each is first met.
\<close>

fun discover :: "string list \<Rightarrow> string list \<Rightarrow> string list" where
  "discover seen [] = seen"
| "discover seen (c # cs) = discover (if c \<in> set seen then seen else seen @ [c]) cs"

definition discoveryOrder :: "AccountLine list \<Rightarrow> string list" where
  "discoveryOrder ls = discover [] (map categoryOf ls)"

text \<open>
  A line set for the scenarios: two asset categories (one met before the other, in the
  reverse of the table's order), a group line, revenue, expense and an unclassified line;
  and the statement the aggregator makes of it.
\<close>

definition exampleAccounts :: "AccountLine list" where
  "exampleAccounts =
     [rubroLine ''a1'' ASSET ''Inversiones'' 50,
      rubroLine ''a2'' ASSET ''Caja y Bancos'' 100,
      (rubroLine ''g1'' ASSET ''Caja y Bancos'' 125)\<lparr>isGroup := True\<rparr>,
      rubroLine ''a3'' ASSET ''Caja y Bancos'' 25,
      rubroLine ''r1'' REVENUE ''Ventas'' (- 300),
      rubroLine ''e1'' EXPENSE ''Sueldos'' 120,
      rubroLine ''u1'' UNCLASSIFIED ''Sin Clasificar'' 7]"

definition exampleStatement :: GroupedFinancials where
  "exampleStatement =
     \<lparr>assets =
        [\<lparr>g_name = ''Caja y Bancos'',
          g_accounts = [rubroLine ''a2'' ASSET ''Caja y Bancos'' 100, rubroLine ''a3'' ASSET ''Caja y Bancos'' 25],
          g_total = 125\<rparr>,
         \<lparr>g_name = ''Inversiones'', g_accounts = [rubroLine ''a1'' ASSET ''Inversiones'' 50], g_total = 50\<rparr>],
      assetsTotal = 175,
      liabilities = [], liabilitiesTotal = 0,
      equity = [], equityTotal = 0,
      revenue = [\<lparr>g_name = ''Ventas'', g_accounts = [rubroLine ''r1'' REVENUE ''Ventas'' (- 300)], g_total = - 300\<rparr>],
      revenueTotal = - 300,
      expenses = [\<lparr>g_name = ''Sueldos'', g_accounts = [rubroLine ''e1'' EXPENSE ''Sueldos'' 120], g_total = 120\<rparr>],
      expenseTotal = 120,
      netResult = 180\<rparr>"

text \<open>
  A collation for the scenarios, in place of the host's \<^verbatim>\<open>localeCompare\<close>: strings
  compared code unit by code unit.
\<close>

definition codeUnit :: "char \<Rightarrow> nat" where
  "codeUnit c = of_char c"

fun codeUnitCompare :: "string \<Rightarrow> string \<Rightarrow> int" where
  "codeUnitCompare [] [] = 0"
| "codeUnitCompare [] (y # ys) = - 1"
| "codeUnitCompare (x # xs) [] = 1"
| "codeUnitCompare (x # xs) (y # ys) =
     (if codeUnit x < codeUnit y then - 1
      else if codeUnit y < codeUnit x then 1
      else codeUnitCompare xs ys)"

section \<open>JavaScript numbers: where the rounding is exact, and a tie\<close>

lemma ilog2_eq:
  assumes "0 \<le> e" and "2 ^ nat e \<le> x" and "x < 2 ^ nat (e + 1)"
  shows "ilog2 x = e"
proof -
  let ?m = "\<lfloor>x\<rfloor>"
  have one: "(1::rat) \<le> 2 ^ nat e" by simp
  with assms(2) have x1: "1 \<le> x" by linarith
  have "(of_int (2 ^ nat e) :: rat) \<le> x" using assms(2) by simp
  then have lo: "2 ^ nat e \<le> ?m" by (simp only: le_floor_iff)
  have "x < of_int (2 ^ nat (e + 1))" using assms(3) by simp
  then have hi: "?m < 2 ^ nat (e + 1)" by (simp only: floor_less_iff)
  from hi assms(1) have "bitlen ?m \<le> e + 1"
    by (simp add: bitlen_le_iff_power)
  moreover from lo assms(1) have "e + 1 \<le> bitlen ?m"
    by (simp add: bitlen_ge_iff_power nat_add_distrib)
  ultimately have "bitlen ?m = e + 1" by simp
  with x1 show ?thesis by (simp add: ilog2_def)
qed

lemma roundHalfEven_int: "roundHalfEven (of_int z) = z"
  by (simp add: roundHalfEven_def)

lemma ilog2_int:
  assumes "0 < k"
  shows "ilog2 (of_int k) = bitlen k - 1"
  using assms by (simp add: ilog2_def)

lemma roundDouble_scaled:
  assumes "k \<noteq> 0" and "ilog2 \<bar>of_int k\<bar> \<le> 52" and "0 \<le> ilog2 \<bar>of_int k\<bar>"
  shows "roundDouble (of_int k) = of_int k"
proof -
  let ?e = "ilog2 \<bar>of_int k\<bar>"
  let ?s = "2 ^ nat (52 - ?e) :: int"
  from assms(2) have q: "pow2 (?e - 52) = 1 / of_int ?s"
    by (simp add: pow2_def)
  have "of_int k / (1 / of_int ?s) = (of_int (k * ?s) :: rat)" by simp
  then have r: "roundHalfEven (of_int k / pow2 (?e - 52)) = k * ?s"
    by (simp only: q roundHalfEven_int)
  have scaled: "(of_int (k * ?s) :: rat) * (1 / of_int ?s) = of_int k" by simp
  from assms(3) have m: "max ?e (- 1022) = ?e" by simp
  have "roundDouble (of_int k) = of_int (roundHalfEven (of_int k / pow2 (?e - 52))) * pow2 (?e - 52)"
    using assms(1) by (simp only: roundDouble_def Let_def m) simp
  also have "\<dots> = of_int (k * ?s) * (1 / of_int ?s)"
    by (simp only: r) (simp only: q)
  finally show ?thesis by (simp only: scaled)
qed

text \<open>Every integer of magnitude below \<open>2^53\<close> is a double.\<close>

lemma roundDouble_int:
  assumes "\<bar>k\<bar> < 2 ^ 53"
  shows "roundDouble (of_int k) = of_int k"
proof (cases "k = 0")
  case True
  then show ?thesis by (simp add: roundDouble_def)
next
  case False
  then have pos: "0 < \<bar>k\<bar>" by simp
  have magnitude: "\<bar>of_int k :: rat\<bar> = of_int \<bar>k\<bar>" by simp
  have e: "ilog2 \<bar>of_int k\<bar> = bitlen \<bar>k\<bar> - 1"
    by (simp only: magnitude ilog2_int [OF pos])
  from pos have "1 \<le> bitlen \<bar>k\<bar>" by (simp add: bitlen_ge_iff_power)
  moreover from assms have "\<bar>k\<bar> < 2 ^ nat 53" by simp
  then have "bitlen \<bar>k\<bar> \<le> 53" by (simp only: bitlen_le_iff_power) simp
  ultimately have "ilog2 \<bar>of_int k\<bar> \<le> 52" and "0 \<le> ilog2 \<bar>of_int k\<bar>"
    by (simp_all add: e)
  with False show ?thesis by (rule roundDouble_scaled)
qed

lemma roundDouble_Ints:
  assumes "x \<in> \<int>" and "\<bar>x\<bar> < 2 ^ 53"
  shows "roundDouble x = x"
proof -
  from assms(1) obtain k where k: "x = of_int k" by (auto elim: Ints_cases)
  with assms(2) have "(of_int \<bar>k\<bar> :: rat) < of_int (2 ^ 53)" by simp
  then have "\<bar>k\<bar> < 2 ^ 53" by (simp only: of_int_less_iff)
  then show ?thesis unfolding k by (rule roundDouble_int)
qed

lemma floor_rat_numeral: "\<lfloor>numeral a / numeral b :: rat\<rfloor> = numeral a div numeral b"
  by (metis floor_divide_of_int_eq of_int_numeral)

text \<open>\<open>2^53\<close> is a double; \<open>2^53 + 1\<close> lies half way between two and goes to the even one.\<close>

lemma roundDouble_2_53: "roundDouble 9007199254740992 = 9007199254740992"
proof -
  have "ilog2 9007199254740992 = 53"
    by (rule ilog2_eq) simp_all
  then show ?thesis
    by (simp add: roundDouble_def pow2_def roundHalfEven_def Let_def)
qed

lemma roundDouble_tie: "roundDouble 9007199254740993 = 9007199254740992"
proof -
  have "ilog2 9007199254740993 = 53"
    by (rule ilog2_eq) simp_all
  moreover have "\<lfloor>9007199254740993 / 2 :: rat\<rfloor> = 4503599627370496"
    by (simp add: floor_rat_numeral)
  ultimately show ?thesis
    by (simp add: roundDouble_def pow2_def roundHalfEven_def Let_def)
qed

lemma foldl_fadd_map:
  "foldl (\<lambda>s a. fadd s (f a)) z xs = foldl fadd z (map f xs)"
  by (induction xs arbitrary: z) simp_all

text \<open>
  On integers whose magnitudes add up to less than \<open>2^53\<close> no addition rounds: the
  floating-point sum is the sum.
\<close>

lemma foldl_fadd_exact:
  "z \<in> \<int> \<Longrightarrow> \<forall>x \<in> set xs. x \<in> \<int> \<Longrightarrow> \<bar>z\<bar> + sum_list (map abs xs) < 2 ^ 53 \<Longrightarrow>
   foldl fadd z xs = z + sum_list xs"
proof (induction xs arbitrary: z)
  case Nil
  then show ?case by simp
next
  case (Cons x xs)
  have nonneg: "0 \<le> sum_list (map abs xs)"
    by (rule sum_list_nonneg) auto
  from Cons.prems have int: "z + x \<in> \<int>" by simp
  from Cons.prems nonneg have small: "\<bar>z + x\<bar> < 2 ^ 53" by simp
  from Cons.prems have rest: "\<bar>z + x\<bar> + sum_list (map abs xs) < 2 ^ 53" by simp
  have "fadd z x = z + x"
    by (simp only: fadd_def roundDouble_Ints [OF int small])
  moreover from Cons.prems have "\<forall>x \<in> set xs. x \<in> \<int>" by simp
  ultimately show ?case
    using Cons.IH [OF int _ rest] by (simp add: add.assoc)
qed

lemma floatSum_exact:
  "\<forall>x \<in> set xs. x \<in> \<int> \<Longrightarrow> sum_list (map abs xs) < 2 ^ 53 \<Longrightarrow> floatSum xs = sum_list xs"
  using foldl_fadd_exact [of 0 xs] by (simp add: floatSum_def)

section \<open>Line Editor: deletion\<close>

lemma filter_id_absent:
  "i \<notin> id' ` set prev \<Longrightarrow> filter (\<lambda>a. id' a \<noteq> i) prev = prev"
  by (induction prev) auto

text \<open>
  C9. Deleting an id that no line carries returns the input (whatever the dialog
  answered, and nothing fails). When the deletion is confirmed and the id is carried by
  the line \<open>a\<close> between \<open>xs\<close> and \<open>ys\<close> and by no other, the result is \<open>xs @ ys\<close>: that
  line is removed and the others keep their order. In general a confirmed deletion
  leaves no line with that id, keeps every other line with its multiplicity, and keeps
  the order of the input.
\<close>

theorem deleteLine_semantics:
  "(i \<notin> id' ` set prev \<longrightarrow> handleDeleteAccount confirmed i prev = prev) \<and>
   (id' a = i \<and> i \<notin> id' ` set xs \<and> i \<notin> id' ` set ys \<longrightarrow>
      handleDeleteAccount True i (xs @ a # ys) = xs @ ys) \<and>
   i \<notin> id' ` set (handleDeleteAccount True i prev) \<and>
   (id' b \<noteq> i \<longrightarrow>
      count (mset (handleDeleteAccount True i prev)) b = count (mset prev) b) \<and>
   handleDeleteAccount True i prev = filter (\<lambda>l. l \<in> set (handleDeleteAccount True i prev)) prev"
proof -
  have absent: "i \<notin> id' ` set prev \<longrightarrow> handleDeleteAccount confirmed i prev = prev"
    by (simp add: handleDeleteAccount_def filter_id_absent)
  have present: "id' a = i \<and> i \<notin> id' ` set xs \<and> i \<notin> id' ` set ys \<longrightarrow>
      handleDeleteAccount True i (xs @ a # ys) = xs @ ys"
    by (simp add: handleDeleteAccount_def filter_id_absent)
  have gone: "i \<notin> id' ` set (handleDeleteAccount True i prev)"
    by (auto simp: handleDeleteAccount_def)
  have kept: "id' b \<noteq> i \<longrightarrow>
      count (mset (handleDeleteAccount True i prev)) b = count (mset prev) b"
    by (simp add: handleDeleteAccount_def)
  have "filter (\<lambda>l. l \<in> set (filter (\<lambda>a. id' a \<noteq> i) prev)) prev = filter (\<lambda>a. id' a \<noteq> i) prev"
    by (rule filter_cong) auto
  then have order: "handleDeleteAccount True i prev =
      filter (\<lambda>l. l \<in> set (handleDeleteAccount True i prev)) prev"
    by (simp add: handleDeleteAccount_def)
  from absent present gone kept order show ?thesis by blast
qed

theorem deleteLine_semantics_witness:
  "handleDeleteAccount True ''x9''
     [exampleLine ''a1'' ASSET ''Cash'' 100, exampleLine ''a2'' LIABILITY ''Loan'' (-40)]
   = [exampleLine ''a1'' ASSET ''Cash'' 100, exampleLine ''a2'' LIABILITY ''Loan'' (-40)] \<and>
   handleDeleteAccount True ''a2''
     ([exampleLine ''a1'' ASSET ''Cash'' 100] @ exampleLine ''a2'' LIABILITY ''Loan'' (-40) #
      [exampleLine ''a3'' EQUITY ''Capital'' (-60)])
   = [exampleLine ''a1'' ASSET ''Cash'' 100] @ [exampleLine ''a3'' EQUITY ''Capital'' (-60)]"
  using deleteLine_semantics [of "''x9''"
      "[exampleLine ''a1'' ASSET ''Cash'' 100, exampleLine ''a2'' LIABILITY ''Loan'' (-40)]"
      True "exampleLine ''a2'' LIABILITY ''Loan'' (-40)" "[]" "[]" "exampleLine ''a1'' ASSET ''Cash'' 100"]
    deleteLine_semantics [of "''a2''" "[]" True "exampleLine ''a2'' LIABILITY ''Loan'' (-40)"
      "[exampleLine ''a1'' ASSET ''Cash'' 100]" "[exampleLine ''a3'' EQUITY ''Capital'' (-60)]"
      "exampleLine ''a1'' ASSET ''Cash'' 100"]
  by (simp add: exampleLine_def)

section \<open>Line Editor: editing one field\<close>

lemma editLine_debit:
  "editLine (EditDebit v) acc = acc\<lparr>debit := v, balance := v - credit acc, manualOverride := True\<rparr>"
  by (simp add: editLine_def)

lemma editLine_credit:
  "editLine (EditCredit v) acc = acc\<lparr>credit := v, balance := debit acc - v, manualOverride := True\<rparr>"
  by (simp add: editLine_def)

lemma editLine_balance:
  "editLine (EditBalance v) acc = acc\<lparr>balance := v, manualOverride := True\<rparr>"
  by (simp add: editLine_def)

lemma editLine_manualOverride: "manualOverride (editLine e acc) = True"
  by (cases e) (simp_all add: editLine_def)

lemma editLine_keeps_numbers:
  "(\<forall>v. e \<noteq> EditDebit v) \<Longrightarrow> debit (editLine e acc) = debit acc"
  "(\<forall>v. e \<noteq> EditCredit v) \<Longrightarrow> credit (editLine e acc) = credit acc"
  "(\<forall>v. e \<noteq> EditDebit v) \<Longrightarrow> (\<forall>v. e \<noteq> EditCredit v) \<Longrightarrow> (\<forall>v. e \<noteq> EditBalance v) \<Longrightarrow>
     balance (editLine e acc) = balance acc"
  by (cases e; simp add: editLine_def)+

lemma handleManualEdit_length: "length (handleManualEdit i e prev) = length prev"
  by (simp add: handleManualEdit_def)

lemma handleManualEdit_nth:
  "k < length prev \<Longrightarrow>
     handleManualEdit i e prev ! k = (if id' (prev ! k) = i then editLine e (prev ! k) else prev ! k)"
  by (simp add: handleManualEdit_def)

text \<open>
  C5. \<^verbatim>\<open>handleManualEdit\<close> returns a sequence of the same length in which every line
  whose id differs from the given one is the input's line, and every line carrying the
  id has \<^verbatim>\<open>manualOverride = true\<close>. On such a line an edit of \<^verbatim>\<open>debit\<close> stores the value
  and sets the balance to the new debit minus the prior credit (credit unchanged); an
  edit of \<^verbatim>\<open>credit\<close> stores the value and sets the balance to the prior debit minus the new
  credit (debit unchanged); an edit of \<^verbatim>\<open>balance\<close> stores the value and leaves debit and
  credit as they were; an edit of any other field leaves all three numbers as they were.
\<close>

theorem editField_semantics:
  "length (handleManualEdit i e prev) = length prev \<and>
   (\<forall>k < length prev.
      (id' (prev ! k) \<noteq> i \<longrightarrow> handleManualEdit i e prev ! k = prev ! k) \<and>
      (id' (prev ! k) = i \<longrightarrow>
         manualOverride (handleManualEdit i e prev ! k) = True \<and>
         (\<forall>v. e = EditDebit v \<longrightarrow>
            handleManualEdit i e prev ! k =
              (prev ! k)\<lparr>debit := v, balance := v - credit (prev ! k), manualOverride := True\<rparr>) \<and>
         (\<forall>v. e = EditCredit v \<longrightarrow>
            handleManualEdit i e prev ! k =
              (prev ! k)\<lparr>credit := v, balance := debit (prev ! k) - v, manualOverride := True\<rparr>) \<and>
         (\<forall>v. e = EditBalance v \<longrightarrow>
            handleManualEdit i e prev ! k = (prev ! k)\<lparr>balance := v, manualOverride := True\<rparr>) \<and>
         ((\<forall>v. e \<noteq> EditDebit v) \<and> (\<forall>v. e \<noteq> EditCredit v) \<and> (\<forall>v. e \<noteq> EditBalance v) \<longrightarrow>
            debit (handleManualEdit i e prev ! k) = debit (prev ! k) \<and>
            credit (handleManualEdit i e prev ! k) = credit (prev ! k) \<and>
            balance (handleManualEdit i e prev ! k) = balance (prev ! k))))"
  by (auto simp: handleManualEdit_length handleManualEdit_nth editLine_debit editLine_credit
      editLine_balance editLine_manualOverride editLine_keeps_numbers)

theorem editField_semantics_witness:
  "handleManualEdit ''a2'' (EditDebit 7)
     [exampleLine ''a1'' ASSET ''Cash'' 100,
      (exampleLine ''a2'' LIABILITY ''Loan'' (-40))\<lparr>credit := 40\<rparr>] ! 0
     = exampleLine ''a1'' ASSET ''Cash'' 100 \<and>
   handleManualEdit ''a2'' (EditDebit 7)
     [exampleLine ''a1'' ASSET ''Cash'' 100,
      (exampleLine ''a2'' LIABILITY ''Loan'' (-40))\<lparr>credit := 40\<rparr>] ! 1
     = (exampleLine ''a2'' LIABILITY ''Loan'' (-40))
         \<lparr>debit := 7, credit := 40, balance := - 33, manualOverride := True\<rparr>"
proof -
  let ?prev = "[exampleLine ''a1'' ASSET ''Cash'' 100,
      (exampleLine ''a2'' LIABILITY ''Loan'' (-40))\<lparr>credit := 40\<rparr>]"
  have k0: "0 < length ?prev" and k1: "1 < length ?prev" by simp_all
  from editField_semantics [of "''a2''" "EditDebit 7" ?prev]
  have all: "\<forall>k < length ?prev.
      (id' (?prev ! k) \<noteq> ''a2'' \<longrightarrow> handleManualEdit ''a2'' (EditDebit 7) ?prev ! k = ?prev ! k) \<and>
      (id' (?prev ! k) = ''a2'' \<longrightarrow>
         handleManualEdit ''a2'' (EditDebit 7) ?prev ! k =
           (?prev ! k)\<lparr>debit := 7, balance := 7 - credit (?prev ! k), manualOverride := True\<rparr>)"
    by blast
  from all k0 have "handleManualEdit ''a2'' (EditDebit 7) ?prev ! 0 = ?prev ! 0"
    by (simp add: exampleLine_def)
  moreover from all k1 have "handleManualEdit ''a2'' (EditDebit 7) ?prev ! 1 =
      (?prev ! 1)\<lparr>debit := 7, balance := 7 - credit (?prev ! 1), manualOverride := True\<rparr>"
    by (simp add: exampleLine_def)
  ultimately show ?thesis by (simp add: exampleLine_def)
qed

section \<open>Consistency Checker: one finding exactly when the total is off\<close>

lemma grandTotal_floatSum:
  "grandTotal accounts = floatSum (map balance (filter (\<lambda>a. \<not> isGroup a) accounts))"
  unfolding grandTotal_def floatSum_def by (rule foldl_fadd_map)

lemma toFixed_ten: "toFixed numberToString 2 10 = ''10.00''"
  by code_simp

text \<open>
  C3 (as amended). With \<open>grandTotal\<close> the floating-point sum of \<open>balance\<close> over the lines
  that are not groups, whatever their section (the balances added to 0 from left to
  right, each addition rounded to a double), the checker returns exactly one finding when
  \<open>\<bar>grandTotal\<bar> > 1\<close> (severity \<open>high\<close>, the total printed with two decimals in the
  message, no related line) and none otherwise. That sum is the exact sum when the
  balances are integers whose magnitudes add up to less than \<open>2^53\<close>. Three lines that are
  not groups with balances 100, -40 and -60 give no finding; with -50 in place of -60
  they give the one finding whose message prints 10.00.
\<close>

theorem checker_finding_iff:
  "inconsistencies numberToString accounts =
     (if \<bar>floatSum (map balance (filter (\<lambda>a. \<not> isGroup a) accounts))\<bar> > 1 then
        [\<lparr>inc_id = ''diff-balance'', severity = high,
          message = ''El balance no da cero (Diferencia: '' @
             toFixed numberToString 2 (floatSum (map balance (filter (\<lambda>a. \<not> isGroup a) accounts))) @
             ''). Revisar asientos.'',
          relatedAccountIds = []\<rparr>]
      else []) \<and>
   ((\<forall>x \<in> set (map balance (filter (\<lambda>a. \<not> isGroup a) accounts)). x \<in> \<int>) \<and>
    sum_list (map abs (map balance (filter (\<lambda>a. \<not> isGroup a) accounts))) < 2 ^ 53 \<longrightarrow>
      floatSum (map balance (filter (\<lambda>a. \<not> isGroup a) accounts)) =
      sum_list (map balance (filter (\<lambda>a. \<not> isGroup a) accounts))) \<and>
   inconsistencies numberToString
     [cash\<lparr>type := ASSET, name := ''Cash'', balance := 100, isGroup := False\<rparr>,
      loan\<lparr>type := LIABILITY, name := ''Loan'', balance := - 40, isGroup := False\<rparr>,
      capital\<lparr>type := EQUITY, name := ''Capital'', balance := - 60, isGroup := False\<rparr>] = [] \<and>
   inconsistencies numberToString
     [cash\<lparr>type := ASSET, name := ''Cash'', balance := 100, isGroup := False\<rparr>,
      loan\<lparr>type := LIABILITY, name := ''Loan'', balance := - 40, isGroup := False\<rparr>,
      capital\<lparr>type := EQUITY, name := ''Capital'', balance := - 50, isGroup := False\<rparr>] =
     [\<lparr>inc_id = ''diff-balance'', severity = high,
       message = ''El balance no da cero (Diferencia: 10.00). Revisar asientos.'',
       relatedAccountIds = []\<rparr>]"
proof -
  have general: "inconsistencies numberToString accounts =
     (if \<bar>floatSum (map balance (filter (\<lambda>a. \<not> isGroup a) accounts))\<bar> > 1 then
        [\<lparr>inc_id = ''diff-balance'', severity = high,
          message = ''El balance no da cero (Diferencia: '' @
             toFixed numberToString 2 (floatSum (map balance (filter (\<lambda>a. \<not> isGroup a) accounts))) @
             ''). Revisar asientos.'',
          relatedAccountIds = []\<rparr>]
      else [])"
    by (simp add: inconsistencies_def grandTotal_floatSum)
  have exact: "(\<forall>x \<in> set (map balance (filter (\<lambda>a. \<not> isGroup a) accounts)). x \<in> \<int>) \<and>
    sum_list (map abs (map balance (filter (\<lambda>a. \<not> isGroup a) accounts))) < 2 ^ 53 \<longrightarrow>
      floatSum (map balance (filter (\<lambda>a. \<not> isGroup a) accounts)) =
      sum_list (map balance (filter (\<lambda>a. \<not> isGroup a) accounts))"
  proof
    assume "(\<forall>x \<in> set (map balance (filter (\<lambda>a. \<not> isGroup a) accounts)). x \<in> \<int>) \<and>
      sum_list (map abs (map balance (filter (\<lambda>a. \<not> isGroup a) accounts))) < 2 ^ 53"
    then show "floatSum (map balance (filter (\<lambda>a. \<not> isGroup a) accounts)) =
        sum_list (map balance (filter (\<lambda>a. \<not> isGroup a) accounts))"
      by (intro floatSum_exact) (erule conjunct1, erule conjunct2)
  qed
  have balanced: "inconsistencies numberToString
     [cash\<lparr>type := ASSET, name := ''Cash'', balance := 100, isGroup := False\<rparr>,
      loan\<lparr>type := LIABILITY, name := ''Loan'', balance := - 40, isGroup := False\<rparr>,
      capital\<lparr>type := EQUITY, name := ''Capital'', balance := - 60, isGroup := False\<rparr>] = []"
    by (simp add: inconsistencies_def grandTotal_def fadd_def roundDouble_Ints)
  have off: "inconsistencies numberToString
     [cash\<lparr>type := ASSET, name := ''Cash'', balance := 100, isGroup := False\<rparr>,
      loan\<lparr>type := LIABILITY, name := ''Loan'', balance := - 40, isGroup := False\<rparr>,
      capital\<lparr>type := EQUITY, name := ''Capital'', balance := - 50, isGroup := False\<rparr>] =
     [\<lparr>inc_id = ''diff-balance'', severity = high,
       message = ''El balance no da cero (Diferencia: 10.00). Revisar asientos.'',
       relatedAccountIds = []\<rparr>]"
    by (simp add: inconsistencies_def grandTotal_def fadd_def roundDouble_Ints toFixed_ten)
  from general exact balanced off show ?thesis by (intro conjI)
qed

theorem checker_finding_iff_witness:
  "inconsistencies (\<lambda>x. ''?'')
     [exampleLine ''a1'' ASSET ''Cash'' 100, exampleLine ''a2'' LIABILITY ''Loan'' (- 40),
      (exampleLine ''g1'' LIABILITY ''TOTAL'' (- 40))\<lparr>isGroup := True\<rparr>,
      exampleLine ''a3'' UNCLASSIFIED ''Capital'' (- 50)] =
     [\<lparr>inc_id = ''diff-balance'', severity = high,
       message = ''El balance no da cero (Diferencia: 10.00). Revisar asientos.'',
       relatedAccountIds = []\<rparr>] \<and>
   floatSum [100, - 40, - 50] = 10"
proof -
  let ?accounts = "[exampleLine ''a1'' ASSET ''Cash'' 100, exampleLine ''a2'' LIABILITY ''Loan'' (- 40),
      (exampleLine ''g1'' LIABILITY ''TOTAL'' (- 40))\<lparr>isGroup := True\<rparr>,
      exampleLine ''a3'' UNCLASSIFIED ''Capital'' (- 50)]"
  have balances: "map balance (filter (\<lambda>a. \<not> isGroup a) ?accounts) = [100, - 40, - 50]"
    by (simp add: exampleLine_def)
  have ints: "\<forall>x \<in> set [100, - 40, - 50 :: rat]. x \<in> \<int>" by simp
  have small: "sum_list (map abs [100, - 40, - 50 :: rat]) < 2 ^ 53" by simp
  note inst = checker_finding_iff [of "\<lambda>x. ''?''" ?accounts, unfolded balances]
  from inst ints small have sum: "floatSum [100, - 40, - 50] = sum_list [100, - 40, - 50]"
    by blast
  then have ten: "floatSum [100, - 40, - 50] = 10" by simp
  from inst have "inconsistencies (\<lambda>x. ''?'') ?accounts =
     (if \<bar>floatSum [100, - 40, - 50]\<bar> > 1 then
        [\<lparr>inc_id = ''diff-balance'', severity = high,
          message = ''El balance no da cero (Diferencia: '' @
             toFixed (\<lambda>x. ''?'') 2 (floatSum [100, - 40, - 50]) @ ''). Revisar asientos.'',
          relatedAccountIds = []\<rparr>]
      else [])"
    by blast
  with ten show ?thesis by (simp add: toFixed_ten)
qed

text \<open>
  A sum that rounds: the doubles nearest to -1.9 and 3.9 are \<open>-4278419646001971 / 2^51\<close>
  and \<open>8782019273372467 / 2^51\<close>. Added to -3 from left to right, the first addition is a
  tie and rounds away from the sum, and the total is \<open>-(1 + 2^-51)\<close>.
\<close>

lemma fadd_example_1: "fadd 0 (- 3) = - 3"
  by (simp add: fadd_def roundDouble_Ints)

lemma fadd_example_2:
  "fadd (- 3) (- (4278419646001971 / 2251799813685248)) = - (2758454771764429 / 562949953421312)"
proof -
  have "ilog2 (11033819087057715 / 2251799813685248) = 2"
    by (rule ilog2_eq) simp_all
  moreover have "\<lfloor>- (11033819087057715 / 2) :: rat\<rfloor> = - 5516909543528858"
    by (simp add: floor_eq_iff)
  ultimately show ?thesis
    by (simp add: fadd_def roundDouble_def pow2_def roundHalfEven_def Let_def)
qed

lemma fadd_example_3:
  "fadd (- (2758454771764429 / 562949953421312)) (8782019273372467 / 2251799813685248) =
   - (2251799813685249 / 2251799813685248)"
proof -
  have "ilog2 (2251799813685249 / 2251799813685248) = 0"
    by (rule ilog2_eq) simp_all
  then show ?thesis
    by (simp add: fadd_def roundDouble_def pow2_def roundHalfEven_def Let_def)
qed

lemma digits_hundred: "digits 100 = ''100''"
  by code_simp

lemma toFixed_example:
  "toFixed numberToString 2 (- (2251799813685249 / 2251799813685248)) = ''-1.00''"
proof -
  have "\<lfloor>225179981368524900 / 2251799813685248 + 1 / 2 :: rat\<rfloor> = 100"
    by (simp add: floor_eq_iff)
  then show ?thesis
    by (simp add: toFixed_def Let_def digits_hundred)
qed

text \<open>
  The claim C3 as stated, with \<open>grandTotal\<close> the sum of the balances, fails in both
  directions. For the balances \<open>2^53\<close>, 1, 1 and \<open>-2^53\<close> the sum is 2, yet the checker
  returns no finding: each addition of 1 to \<open>2^53\<close> rounds back to \<open>2^53\<close>, so the total
  the code folds is 0. For the balances -3, -1.9 and 3.9 (the doubles nearest to them)
  the sum is -1, of absolute value not above 1, yet the checker returns a finding, with
  the total printed as -1.00.
\<close>

theorem checker_finding_iff_counterexample:
  "inconsistencies (\<lambda>x. ''?'')
     [exampleLine ''a1'' ASSET ''Cash'' 9007199254740992, exampleLine ''a2'' ASSET ''Bank'' 1,
      exampleLine ''a3'' ASSET ''Fund'' 1, exampleLine ''a4'' LIABILITY ''Loan'' (- 9007199254740992)] = [] \<and>
   \<bar>sum_list (map balance (filter (\<lambda>a. \<not> isGroup a)
     [exampleLine ''a1'' ASSET ''Cash'' 9007199254740992, exampleLine ''a2'' ASSET ''Bank'' 1,
      exampleLine ''a3'' ASSET ''Fund'' 1, exampleLine ''a4'' LIABILITY ''Loan'' (- 9007199254740992)]))\<bar> > 1 \<and>
   inconsistencies (\<lambda>x. ''?'')
     [exampleLine ''b1'' EQUITY ''Capital'' (- 3),
      exampleLine ''b2'' LIABILITY ''Loan'' (- (4278419646001971 / 2251799813685248)),
      exampleLine ''b3'' ASSET ''Bank'' (8782019273372467 / 2251799813685248)] =
     [\<lparr>inc_id = ''diff-balance'', severity = high,
       message = ''El balance no da cero (Diferencia: -1.00). Revisar asientos.'',
       relatedAccountIds = []\<rparr>] \<and>
   \<not> \<bar>sum_list (map balance (filter (\<lambda>a. \<not> isGroup a)
     [exampleLine ''b1'' EQUITY ''Capital'' (- 3),
      exampleLine ''b2'' LIABILITY ''Loan'' (- (4278419646001971 / 2251799813685248)),
      exampleLine ''b3'' ASSET ''Bank'' (8782019273372467 / 2251799813685248)]))\<bar> > 1"
proof -
  have none: "inconsistencies (\<lambda>x. ''?'')
     [exampleLine ''a1'' ASSET ''Cash'' 9007199254740992, exampleLine ''a2'' ASSET ''Bank'' 1,
      exampleLine ''a3'' ASSET ''Fund'' 1, exampleLine ''a4'' LIABILITY ''Loan'' (- 9007199254740992)] = [] \<and>
   \<bar>sum_list (map balance (filter (\<lambda>a. \<not> isGroup a)
     [exampleLine ''a1'' ASSET ''Cash'' 9007199254740992, exampleLine ''a2'' ASSET ''Bank'' 1,
      exampleLine ''a3'' ASSET ''Fund'' 1, exampleLine ''a4'' LIABILITY ''Loan'' (- 9007199254740992)]))\<bar> > 1"
    by (simp add: inconsistencies_def grandTotal_def fadd_def exampleLine_def
        roundDouble_2_53 roundDouble_tie roundDouble_Ints)
  have one: "inconsistencies (\<lambda>x. ''?'')
     [exampleLine ''b1'' EQUITY ''Capital'' (- 3),
      exampleLine ''b2'' LIABILITY ''Loan'' (- (4278419646001971 / 2251799813685248)),
      exampleLine ''b3'' ASSET ''Bank'' (8782019273372467 / 2251799813685248)] =
     [\<lparr>inc_id = ''diff-balance'', severity = high,
       message = ''El balance no da cero (Diferencia: -1.00). Revisar asientos.'',
       relatedAccountIds = []\<rparr>] \<and>
   \<not> \<bar>sum_list (map balance (filter (\<lambda>a. \<not> isGroup a)
     [exampleLine ''b1'' EQUITY ''Capital'' (- 3),
      exampleLine ''b2'' LIABILITY ''Loan'' (- (4278419646001971 / 2251799813685248)),
      exampleLine ''b3'' ASSET ''Bank'' (8782019273372467 / 2251799813685248)]))\<bar> > 1"
    by (simp add: inconsistencies_def grandTotal_def exampleLine_def
        fadd_example_1 fadd_example_2 fadd_example_3 toFixed_example)
  from none one show ?thesis by (simp only: simp_thms)
qed

section \<open>Classification Merger: fallback and balance\<close>

lemma classificationMap_foldl_absent:
  "\<forall>item \<in> set result. item_id item \<noteq> k \<Longrightarrow>
   foldl (\<lambda>m item. m(item_id item \<mapsto> f item)) m0 result k = m0 k"
  by (induction result arbitrary: m0) auto

lemma classificationMap_absent:
  "\<forall>item \<in> set result. item_id item \<noteq> k \<Longrightarrow> classificationMap result k = None"
  unfolding classificationMap_def by (simp add: classificationMap_foldl_absent)

lemma classifyAccounts_length:
  "length (classifyAccounts randomUUID accounts response) = length accounts"
  by (cases response) (simp_all add: classifyAccounts_def)

lemma classifyAccounts_nth:
  "k < length accounts \<Longrightarrow>
     classifyAccounts randomUUID accounts (Some result) ! k =
       mergeLine (classificationMap result) (randomUUID k) k (accounts ! k)"
  by (simp add: classifyAccounts_def)

lemma classifyAccounts_ids:
  "map id' (classifyAccounts randomUUID accounts (Some result)) = map randomUUID [0..<length accounts]"
  by (rule nth_equalityI) (simp_all add: classifyAccounts_length classifyAccounts_nth mergeLine_def)

lemma orString_nonempty: "d \<noteq> [] \<Longrightarrow> orString x d \<noteq> []"
  by (simp add: orString_def split: option.splits)

text \<open>
  C4. For every raw line sequence and every array of classification items (empty,
  shorter, longer or with ids that match no line), the merge returns as many lines as
  it was given, the \<open>k\<close>-th made from the \<open>k\<close>-th raw line: its id is the value of the
  \<open>k\<close>-th call of \<^verbatim>\<open>crypto.randomUUID()\<close>, \<^verbatim>\<open>manualOverride\<close> is false, code, name, debit
  and credit are the raw line's (with the defaults for missing ones), section and
  category are non-empty, and when no item carries the id \<open>k\<close> the line has section
  \<^verbatim>\<open>SIN_CLASIFICAR\<close>, category \<^verbatim>\<open>Sin Clasificar\<close> and is no group. The ids of the lines are
  pairwise distinct when the values \<^verbatim>\<open>crypto.randomUUID()\<close> returned are.
\<close>

theorem merge_fallback_completeness:
  "length (classifyAccounts randomUUID accounts (Some result)) = length accounts \<and>
   (\<forall>k < length accounts.
      id' (classifyAccounts randomUUID accounts (Some result) ! k) = randomUUID k \<and>
      manualOverride (classifyAccounts randomUUID accounts (Some result) ! k) = False \<and>
      code (classifyAccounts randomUUID accounts (Some result) ! k) = orString (p_code (accounts ! k)) [] \<and>
      name (classifyAccounts randomUUID accounts (Some result) ! k) =
        orString (p_name (accounts ! k)) ''Cuenta Desconocida'' \<and>
      debit (classifyAccounts randomUUID accounts (Some result) ! k) = orNumber (p_debit (accounts ! k)) 0 \<and>
      credit (classifyAccounts randomUUID accounts (Some result) ! k) = orNumber (p_credit (accounts ! k)) 0 \<and>
      type (classifyAccounts randomUUID accounts (Some result) ! k) \<noteq> [] \<and>
      category (classifyAccounts randomUUID accounts (Some result) ! k) \<noteq> [] \<and>
      ((\<forall>item \<in> set result. item_id item \<noteq> int k) \<longrightarrow>
         type (classifyAccounts randomUUID accounts (Some result) ! k) = UNCLASSIFIED \<and>
         category (classifyAccounts randomUUID accounts (Some result) ! k) = ''Sin Clasificar'' \<and>
         isGroup (classifyAccounts randomUUID accounts (Some result) ! k) = False)) \<and>
   (distinct (map randomUUID [0..<length accounts]) \<longrightarrow>
      distinct (map id' (classifyAccounts randomUUID accounts (Some result))))"
proof -
  have line: "\<forall>k < length accounts.
      id' (classifyAccounts randomUUID accounts (Some result) ! k) = randomUUID k \<and>
      manualOverride (classifyAccounts randomUUID accounts (Some result) ! k) = False \<and>
      code (classifyAccounts randomUUID accounts (Some result) ! k) = orString (p_code (accounts ! k)) [] \<and>
      name (classifyAccounts randomUUID accounts (Some result) ! k) =
        orString (p_name (accounts ! k)) ''Cuenta Desconocida'' \<and>
      debit (classifyAccounts randomUUID accounts (Some result) ! k) = orNumber (p_debit (accounts ! k)) 0 \<and>
      credit (classifyAccounts randomUUID accounts (Some result) ! k) = orNumber (p_credit (accounts ! k)) 0 \<and>
      type (classifyAccounts randomUUID accounts (Some result) ! k) \<noteq> [] \<and>
      category (classifyAccounts randomUUID accounts (Some result) ! k) \<noteq> [] \<and>
      ((\<forall>item \<in> set result. item_id item \<noteq> int k) \<longrightarrow>
         type (classifyAccounts randomUUID accounts (Some result) ! k) = UNCLASSIFIED \<and>
         category (classifyAccounts randomUUID accounts (Some result) ! k) = ''Sin Clasificar'' \<and>
         isGroup (classifyAccounts randomUUID accounts (Some result) ! k) = False)"
  proof (intro allI impI)
    fix k assume k: "k < length accounts"
    have fallback: "orString (Option.bind (classificationMap result (int k)) entry_type) UNCLASSIFIED = UNCLASSIFIED \<and>
        orString (map_option entry_category (classificationMap result (int k))) ''Sin Clasificar'' = ''Sin Clasificar'' \<and>
        orBool (Option.bind (classificationMap result (int k)) entry_isGroup) False = False"
      if "\<forall>item \<in> set result. item_id item \<noteq> int k"
      using classificationMap_absent [OF that] by (simp add: orString_def orBool_def)
    have nonempty: "orString (Option.bind (classificationMap result (int k)) entry_type) UNCLASSIFIED \<noteq> [] \<and>
        orString (map_option entry_category (classificationMap result (int k))) ''Sin Clasificar'' \<noteq> []"
      by (simp add: orString_nonempty UNCLASSIFIED_def)
    show "id' (classifyAccounts randomUUID accounts (Some result) ! k) = randomUUID k \<and>
      manualOverride (classifyAccounts randomUUID accounts (Some result) ! k) = False \<and>
      code (classifyAccounts randomUUID accounts (Some result) ! k) = orString (p_code (accounts ! k)) [] \<and>
      name (classifyAccounts randomUUID accounts (Some result) ! k) =
        orString (p_name (accounts ! k)) ''Cuenta Desconocida'' \<and>
      debit (classifyAccounts randomUUID accounts (Some result) ! k) = orNumber (p_debit (accounts ! k)) 0 \<and>
      credit (classifyAccounts randomUUID accounts (Some result) ! k) = orNumber (p_credit (accounts ! k)) 0 \<and>
      type (classifyAccounts randomUUID accounts (Some result) ! k) \<noteq> [] \<and>
      category (classifyAccounts randomUUID accounts (Some result) ! k) \<noteq> [] \<and>
      ((\<forall>item \<in> set result. item_id item \<noteq> int k) \<longrightarrow>
         type (classifyAccounts randomUUID accounts (Some result) ! k) = UNCLASSIFIED \<and>
         category (classifyAccounts randomUUID accounts (Some result) ! k) = ''Sin Clasificar'' \<and>
         isGroup (classifyAccounts randomUUID accounts (Some result) ! k) = False)"
      using fallback nonempty by (simp add: classifyAccounts_nth [OF k] mergeLine_def)
  qed
  have ids: "distinct (map randomUUID [0..<length accounts]) \<longrightarrow>
      distinct (map id' (classifyAccounts randomUUID accounts (Some result)))"
    by (simp only: classifyAccounts_ids) simp
  from classifyAccounts_length line ids show ?thesis by blast
qed

theorem merge_fallback_completeness_witness:
  "length (classifyAccounts (\<lambda>k. ''uuid-'' @ digits k)
     [\<lparr>p_code = Some ''1.1'', p_name = Some ''Caja'', p_debit = Some 10, p_credit = Some 0, p_balance = Some 10\<rparr>,
      \<lparr>p_code = None, p_name = Some ''Banco'', p_debit = None, p_credit = None, p_balance = Some 20\<rparr>,
      \<lparr>p_code = None, p_name = None, p_debit = None, p_credit = None, p_balance = None\<rparr>,
      \<lparr>p_code = None, p_name = Some ''Unknown X'', p_debit = Some 5, p_credit = Some 0, p_balance = Some 5\<rparr>]
     (Some [\<lparr>item_id = 0, item_type = Some ''ACTIVO'', item_category = Some ''Caja y Bancos'', item_isGroup = Some False\<rparr>,
            \<lparr>item_id = 7, item_type = Some ''PASIVO'', item_category = None, item_isGroup = None\<rparr>])) = 4 \<and>
   type (classifyAccounts (\<lambda>k. ''uuid-'' @ digits k)
     [\<lparr>p_code = Some ''1.1'', p_name = Some ''Caja'', p_debit = Some 10, p_credit = Some 0, p_balance = Some 10\<rparr>,
      \<lparr>p_code = None, p_name = Some ''Banco'', p_debit = None, p_credit = None, p_balance = Some 20\<rparr>,
      \<lparr>p_code = None, p_name = None, p_debit = None, p_credit = None, p_balance = None\<rparr>,
      \<lparr>p_code = None, p_name = Some ''Unknown X'', p_debit = Some 5, p_credit = Some 0, p_balance = Some 5\<rparr>]
     (Some [\<lparr>item_id = 0, item_type = Some ''ACTIVO'', item_category = Some ''Caja y Bancos'', item_isGroup = Some False\<rparr>,
            \<lparr>item_id = 7, item_type = Some ''PASIVO'', item_category = None, item_isGroup = None\<rparr>]) ! 3)
     = ''SIN_CLASIFICAR'' \<and>
   category (classifyAccounts (\<lambda>k. ''uuid-'' @ digits k)
     [\<lparr>p_code = Some ''1.1'', p_name = Some ''Caja'', p_debit = Some 10, p_credit = Some 0, p_balance = Some 10\<rparr>,
      \<lparr>p_code = None, p_name = Some ''Banco'', p_debit = None, p_credit = None, p_balance = Some 20\<rparr>,
      \<lparr>p_code = None, p_name = None, p_debit = None, p_credit = None, p_balance = None\<rparr>,
      \<lparr>p_code = None, p_name = Some ''Unknown X'', p_debit = Some 5, p_credit = Some 0, p_balance = Some 5\<rparr>]
     (Some [\<lparr>item_id = 0, item_type = Some ''ACTIVO'', item_category = Some ''Caja y Bancos'', item_isGroup = Some False\<rparr>,
            \<lparr>item_id = 7, item_type = Some ''PASIVO'', item_category = None, item_isGroup = None\<rparr>]) ! 3)
     = ''Sin Clasificar'' \<and>
   \<not> isGroup (classifyAccounts (\<lambda>k. ''uuid-'' @ digits k)
     [\<lparr>p_code = Some ''1.1'', p_name = Some ''Caja'', p_debit = Some 10, p_credit = Some 0, p_balance = Some 10\<rparr>,
      \<lparr>p_code = None, p_name = Some ''Banco'', p_debit = None, p_credit = None, p_balance = Some 20\<rparr>,
      \<lparr>p_code = None, p_name = None, p_debit = None, p_credit = None, p_balance = None\<rparr>,
      \<lparr>p_code = None, p_name = Some ''Unknown X'', p_debit = Some 5, p_credit = Some 0, p_balance = Some 5\<rparr>]
     (Some [\<lparr>item_id = 0, item_type = Some ''ACTIVO'', item_category = Some ''Caja y Bancos'', item_isGroup = Some False\<rparr>,
            \<lparr>item_id = 7, item_type = Some ''PASIVO'', item_category = None, item_isGroup = None\<rparr>]) ! 3) \<and>
   distinct (map id' (classifyAccounts (\<lambda>k. ''uuid-'' @ digits k)
     [\<lparr>p_code = Some ''1.1'', p_name = Some ''Caja'', p_debit = Some 10, p_credit = Some 0, p_balance = Some 10\<rparr>,
      \<lparr>p_code = None, p_name = Some ''Banco'', p_debit = None, p_credit = None, p_balance = Some 20\<rparr>,
      \<lparr>p_code = None, p_name = None, p_debit = None, p_credit = None, p_balance = None\<rparr>,
      \<lparr>p_code = None, p_name = Some ''Unknown X'', p_debit = Some 5, p_credit = Some 0, p_balance = Some 5\<rparr>]
     (Some [\<lparr>item_id = 0, item_type = Some ''ACTIVO'', item_category = Some ''Caja y Bancos'', item_isGroup = Some False\<rparr>,
            \<lparr>item_id = 7, item_type = Some ''PASIVO'', item_category = None, item_isGroup = None\<rparr>])))"
proof -
  let ?uuid = "\<lambda>k. ''uuid-'' @ digits k"
  let ?accounts = "[\<lparr>p_code = Some ''1.1'', p_name = Some ''Caja'', p_debit = Some 10, p_credit = Some 0, p_balance = Some 10\<rparr>,
      \<lparr>p_code = None, p_name = Some ''Banco'', p_debit = None, p_credit = None, p_balance = Some 20\<rparr>,
      \<lparr>p_code = None, p_name = None, p_debit = None, p_credit = None, p_balance = None\<rparr>,
      \<lparr>p_code = None, p_name = Some ''Unknown X'', p_debit = Some 5, p_credit = Some 0, p_balance = Some (5::rat)\<rparr>]"
  let ?result = "[\<lparr>item_id = 0, item_type = Some ''ACTIVO'', item_category = Some ''Caja y Bancos'', item_isGroup = Some False\<rparr>,
            \<lparr>item_id = 7, item_type = Some ''PASIVO'', item_category = None, item_isGroup = None\<rparr>]"
  let ?out = "classifyAccounts ?uuid ?accounts (Some ?result)"
  have k: "3 < length ?accounts" by simp
  have absent: "\<forall>item \<in> set ?result. item_id item \<noteq> int 3" by simp
  have uuids: "distinct (map ?uuid [0..<length ?accounts])" by code_simp
  from merge_fallback_completeness [of ?uuid ?accounts ?result]
  have len: "length ?out = length ?accounts"
    and line: "\<forall>k < length ?accounts.
      (\<forall>item \<in> set ?result. item_id item \<noteq> int k) \<longrightarrow>
         type (?out ! k) = UNCLASSIFIED \<and> category (?out ! k) = ''Sin Clasificar'' \<and> isGroup (?out ! k) = False"
    and ids: "distinct (map ?uuid [0..<length ?accounts]) \<longrightarrow> distinct (map id' ?out)"
    by blast+
  from line k absent have "type (?out ! 3) = UNCLASSIFIED \<and> category (?out ! 3) = ''Sin Clasificar'' \<and>
      isGroup (?out ! 3) = False"
    by blast
  with len ids uuids show ?thesis by (simp add: UNCLASSIFIED_def)
qed

lemma orNumber_zero: "orNumber x 0 = (case x of None \<Rightarrow> 0 | Some v \<Rightarrow> v)"
  by (simp add: orNumber_def split: option.splits)

text \<open>
  C10. The merge does not always pass a raw balance through. For the \<open>k\<close>-th raw line:
  when its balance is missing or zero, the merged balance is debit minus credit, a
  missing debit or credit counting as 0; when its balance is a number other than zero,
  the merged balance is that number, whatever debit and credit are.
\<close>

theorem merge_balance_rule:
  "\<forall>k < length accounts.
     (p_balance (accounts ! k) = None \<or> p_balance (accounts ! k) = Some 0 \<longrightarrow>
        balance (classifyAccounts randomUUID accounts (Some result) ! k) =
          (case p_debit (accounts ! k) of None \<Rightarrow> 0 | Some d \<Rightarrow> d) -
          (case p_credit (accounts ! k) of None \<Rightarrow> 0 | Some c \<Rightarrow> c)) \<and>
     (\<forall>b. p_balance (accounts ! k) = Some b \<and> b \<noteq> 0 \<longrightarrow>
        balance (classifyAccounts randomUUID accounts (Some result) ! k) = b)"
proof (intro allI impI)
  fix k assume k: "k < length accounts"
  have "balance (classifyAccounts randomUUID accounts (Some result) ! k) =
      orNumber (p_balance (accounts ! k))
        ((case p_debit (accounts ! k) of None \<Rightarrow> 0 | Some d \<Rightarrow> d) -
         (case p_credit (accounts ! k) of None \<Rightarrow> 0 | Some c \<Rightarrow> c))"
    by (simp add: classifyAccounts_nth [OF k] mergeLine_def orNumber_zero)
  then show "(p_balance (accounts ! k) = None \<or> p_balance (accounts ! k) = Some 0 \<longrightarrow>
        balance (classifyAccounts randomUUID accounts (Some result) ! k) =
          (case p_debit (accounts ! k) of None \<Rightarrow> 0 | Some d \<Rightarrow> d) -
          (case p_credit (accounts ! k) of None \<Rightarrow> 0 | Some c \<Rightarrow> c)) \<and>
     (\<forall>b. p_balance (accounts ! k) = Some b \<and> b \<noteq> 0 \<longrightarrow>
        balance (classifyAccounts randomUUID accounts (Some result) ! k) = b)"
    by (auto simp: orNumber_def)
qed

theorem merge_balance_rule_witness:
  "balance (classifyAccounts (\<lambda>k. ''uuid-'' @ digits k)
     [\<lparr>p_code = None, p_name = Some ''Caja'', p_debit = Some 5, p_credit = Some 2, p_balance = Some 0\<rparr>,
      \<lparr>p_code = None, p_name = Some ''Banco'', p_debit = Some 5, p_credit = Some 2, p_balance = Some 7\<rparr>,
      \<lparr>p_code = None, p_name = Some ''Deuda'', p_debit = None, p_credit = Some 4, p_balance = None\<rparr>]
     (Some []) ! 0) = 3 \<and>
   balance (classifyAccounts (\<lambda>k. ''uuid-'' @ digits k)
     [\<lparr>p_code = None, p_name = Some ''Caja'', p_debit = Some 5, p_credit = Some 2, p_balance = Some 0\<rparr>,
      \<lparr>p_code = None, p_name = Some ''Banco'', p_debit = Some 5, p_credit = Some 2, p_balance = Some 7\<rparr>,
      \<lparr>p_code = None, p_name = Some ''Deuda'', p_debit = None, p_credit = Some 4, p_balance = None\<rparr>]
     (Some []) ! 1) = 7 \<and>
   balance (classifyAccounts (\<lambda>k. ''uuid-'' @ digits k)
     [\<lparr>p_code = None, p_name = Some ''Caja'', p_debit = Some 5, p_credit = Some 2, p_balance = Some 0\<rparr>,
      \<lparr>p_code = None, p_name = Some ''Banco'', p_debit = Some 5, p_credit = Some 2, p_balance = Some 7\<rparr>,
      \<lparr>p_code = None, p_name = Some ''Deuda'', p_debit = None, p_credit = Some 4, p_balance = None\<rparr>]
     (Some []) ! 2) = - 4"
proof -
  let ?uuid = "\<lambda>k. ''uuid-'' @ digits k"
  let ?accounts = "[\<lparr>p_code = None, p_name = Some ''Caja'', p_debit = Some 5, p_credit = Some 2, p_balance = Some 0\<rparr>,
      \<lparr>p_code = None, p_name = Some ''Banco'', p_debit = Some 5, p_credit = Some 2, p_balance = Some 7\<rparr>,
      \<lparr>p_code = None, p_name = Some ''Deuda'', p_debit = None, p_credit = Some 4, p_balance = (None :: rat option)\<rparr>]"
  note rule = merge_balance_rule [of ?accounts ?uuid "[]", rule_format]
  have "balance (classifyAccounts ?uuid ?accounts (Some []) ! 0) = 3"
    using rule [of 0, THEN conjunct1] by simp
  moreover have "balance (classifyAccounts ?uuid ?accounts (Some []) ! 1) = 7"
    using rule [of 1, THEN conjunct2, rule_format, of 7] by simp
  moreover have "balance (classifyAccounts ?uuid ?accounts (Some []) ! 2) = - 4"
    using rule [of 2, THEN conjunct1] by simp
  ultimately show ?thesis by blast
qed

section \<open>Row Extractor: what the loop returns\<close>

lemma rowName_Nil: "rowName numberToString mapping [] = []"
  by (simp add: rowName_def nthCell_def stringOrEmpty_def truthy_def trim_def)

lemma extractLoop_eq:
  "extractLoop ts m rows i out =
     out @ concat (map (\<lambda>row. case extractRow ts m row of None \<Rightarrow> [] | Some l \<Rightarrow> [l]) (drop (nat i) rows))"
proof (induction ts m rows i out rule: extractLoop.induct)
  case (1 ts m rows i out)
  show ?case
  proof (cases "i < int (length rows)")
    case False
    then show ?thesis by (simp add: extractLoop.simps [of ts m rows i out])
  next
    case True
    note IH = 1 [OF True]
    show ?thesis
    proof (cases "i < 0")
      case neg: True
      then have "nat (i + 1) = nat i" by simp
      with True neg IH show ?thesis
        by (simp add: extractLoop.simps [of ts m rows i out])
    next
      case nonneg: False
      with True have lt: "nat i < length rows" by simp
      from nonneg have suc: "nat (i + 1) = Suc (nat i)" by simp
      from True nonneg IH show ?thesis
        by (simp add: extractLoop.simps [of ts m rows i out] suc Cons_nth_drop_Suc [OF lt, symmetric])
    qed
  qed
qed

lemma concat_kept_rows:
  "concat (map (\<lambda>row. case extractRow ts m row of None \<Rightarrow> [] | Some l \<Rightarrow> [l]) xs) =
     map (rowLine ts m) (filter (\<lambda>row. rowName ts m row \<noteq> []) xs)"
  by (induction xs) (auto simp: extractRow_def rowName_Nil)

lemma parseFinancialDocument_eq:
  "parseFinancialDocument ts m rows =
     map (rowLine ts m) (filter (\<lambda>row. rowName ts m row \<noteq> []) (drop (nat (startRow m)) rows))"
  by (simp add: parseFinancialDocument_def extractLoop_eq concat_kept_rows)


lemma rowAmounts_balance_only:
  "\<not> (debitIndex m > - 1 \<and> creditIndex m > - 1) \<Longrightarrow> balanceIndex m > - 1 \<Longrightarrow>
   rowAmounts ts m row =
     (max (parseNumber ts (nthCell row (balanceIndex m))) 0,
      max (- parseNumber ts (nthCell row (balanceIndex m))) 0,
      parseNumber ts (nthCell row (balanceIndex m)))"
  by (auto simp: rowAmounts_def Let_def max_def abs_if)



text \<open>
  C7. When a balance column is mapped and the debit and credit columns are not both
  mapped (in particular when neither is), every retained row has as balance the parsed
  signed value \<open>b\<close> of its balance cell, as debit \<open>max b 0\<close> and as credit \<open>max (- b) 0\<close>;
  a row whose balance cell parses to -25 has debit 0, credit 25 and balance -25.
\<close>

theorem single_balance_column_rule:
  assumes "\<not> (debitIndex m > - 1 \<and> creditIndex m > - 1)" and "balanceIndex m > - 1"
  shows "parseFinancialDocument ts m rows =
      map (\<lambda>row.
             \<lparr>p_code = Some (rowCode ts m row), p_name = Some (rowName ts m row),
              p_debit = Some (max (parseNumber ts (nthCell row (balanceIndex m))) 0),
              p_credit = Some (max (- parseNumber ts (nthCell row (balanceIndex m))) 0),
              p_balance = Some (parseNumber ts (nthCell row (balanceIndex m)))\<rparr>)
        (filter (\<lambda>row. rowName ts m row \<noteq> []) (drop (nat (startRow m)) rows)) \<and>
     (parseNumber ts (nthCell row (balanceIndex m)) = - 25 \<longrightarrow>
        p_debit (rowLine ts m row) = Some 0 \<and> p_credit (rowLine ts m row) = Some 25 \<and>
        p_balance (rowLine ts m row) = Some (- 25))"
  using assms by (simp add: parseFinancialDocument_eq rowLine_def rowAmounts_balance_only)

theorem single_balance_column_rule_witness:
  "parseFinancialDocument (\<lambda>x. ''?'')
     \<lparr>codeIndex = - 1, nameIndex = 0, debitIndex = - 1, creditIndex = - 1, balanceIndex = 1, startRow = 0\<rparr>
     [[CString ''Caja'', CString ''-25'']] =
     [\<lparr>p_code = Some [], p_name = Some ''Caja'',
       p_debit = Some 0, p_credit = Some 25, p_balance = Some (- 25)\<rparr>]"
proof -
  let ?m = "\<lparr>codeIndex = - 1, nameIndex = 0, debitIndex = - 1, creditIndex = - 1, balanceIndex = 1, startRow = 0\<rparr>"
  let ?row = "[CString ''Caja'', CString ''-25'']"
  have unmapped: "\<not> (debitIndex ?m > - 1 \<and> creditIndex ?m > - 1)" by simp
  have mapped: "balanceIndex ?m > - 1" by simp
  have n: "rowName (\<lambda>x. ''?'') ?m ?row = ''Caja''"
    by (simp add: rowName_def nthCell_def stringOrEmpty_def truthy_def jsString_def trim_def isWhiteSpace_def)
  have c: "rowCode (\<lambda>x. ''?'') ?m ?row = []"
    by (simp add: rowCode_def)
  have b: "parseNumber (\<lambda>x. ''?'') (nthCell ?row 1) = - 25"
    by (simp add: nthCell_def jsString_def parseNumber_def stripNonNumeric_def orNumber_def
        parseFloat_def isDigit_def decimal_def)
  from single_balance_column_rule [OF unmapped mapped, of "\<lambda>x. ''?''" "[?row]", THEN conjunct1]
  show ?thesis by (simp add: n c b)
qed

section \<open>Statement Aggregator: grouping\<close>

lemma mapE_Inr:
  "(\<And>x. x \<in> set xs \<Longrightarrow> f x = Inr (g x)) \<Longrightarrow> mapE f xs = Inr (map g xs)"
  by (induction xs) auto

lemma mset_insertBy: "mset (insertBy c x xs) = add_mset x (mset xs)"
  by (induction xs) auto

lemma mset_sortBy: "mset (sortBy c xs) = mset xs"
  by (induction xs) (auto simp: sortBy_def mset_insertBy)

lemma mset_ownKeyOrder: "mset (ownKeyOrder ks) = mset ks"
  by (simp add: ownKeyOrder_def)

lemma pushGroup_keys:
  "map fst (pushGroup c a G) = (if c \<in> set (map fst G) then map fst G else map fst G @ [c])"
proof (induction G)
  case Nil
  then show ?case by simp
next
  case (Cons p G)
  obtain k v where p: "p = (k, v)" by (cases p)
  show ?case
  proof (cases "k = c")
    case True
    then show ?thesis by (simp add: p)
  next
    case False
    with Cons show ?thesis by (simp add: p)
  qed
qed

lemma pushGroup_map_of:
  "map_of (pushGroup c a G) k =
     (if k = c then Some ((case map_of G c of None \<Rightarrow> [] | Some v \<Rightarrow> v) @ [a]) else map_of G k)"
  by (induction G) auto

lemma groupLines_keys:
  "groupLines xs G = Inr G' \<Longrightarrow> map fst G' = discover (map fst G) (map categoryOf xs)"
proof (induction xs arbitrary: G)
  case Nil
  then show ?case by simp
next
  case (Cons a xs)
  from Cons.prems have ok: "categoryOf a \<notin> set objectPrototypeKeys"
    and rest: "groupLines xs (pushGroup (categoryOf a) a G) = Inr G'"
    by (auto split: if_splits)
  from Cons.IH [OF rest] show ?case by (simp add: pushGroup_keys)
qed

lemma groupLines_map_of:
  "groupLines xs G = Inr G' \<Longrightarrow>
   map_of G' k =
     (if k \<in> set (map fst G) \<or> k \<in> categoryOf ` set xs
      then Some ((case map_of G k of None \<Rightarrow> [] | Some v \<Rightarrow> v) @ filter (\<lambda>a. categoryOf a = k) xs)
      else None)"
proof (induction xs arbitrary: G)
  case Nil
  then show ?case by (auto simp: map_of_eq_None_iff split: option.splits) 
next
  case (Cons a xs)
  from Cons.prems have rest: "groupLines xs (pushGroup (categoryOf a) a G) = Inr G'"
    by (auto split: if_splits)
  show ?case
    unfolding Cons.IH [OF rest]
    by (auto simp: pushGroup_keys pushGroup_map_of map_of_eq_None_iff image_iff split: option.splits)
qed


lemma distinct_discover: "distinct seen \<Longrightarrow> distinct (discover seen cs)"
  by (induction cs arbitrary: seen) auto

lemma set_discover: "set (discover seen cs) = set seen \<union> set cs"
  by (induction cs arbitrary: seen) auto

lemma partition_by_key:
  "distinct ks \<Longrightarrow> f ` set xs \<subseteq> set ks \<Longrightarrow>
   mset (concat (map (\<lambda>c. filter (\<lambda>a. f a = c) xs) ks)) = mset xs"
proof (induction ks arbitrary: xs)
  case Nil
  then show ?case by simp
next
  case (Cons k ks)
  let ?rest = "filter (\<lambda>a. f a \<noteq> k) xs"
  from Cons.prems have sub: "f ` set ?rest \<subseteq> set ks" by auto
  from Cons.prems have dist: "distinct ks" and notin: "k \<notin> set ks" by auto
  have same: "map (\<lambda>c. filter (\<lambda>a. f a = c) xs) ks = map (\<lambda>c. filter (\<lambda>a. f a = c) ?rest) ks"
  proof (rule map_cong [OF refl])
    fix c assume "c \<in> set ks"
    with notin have "c \<noteq> k" by auto
    then show "filter (\<lambda>a. f a = c) xs = filter (\<lambda>a. f a = c) ?rest"
      by (auto intro: filter_cong)
  qed
  have "mset (concat (map (\<lambda>c. filter (\<lambda>a. f a = c) xs) (k # ks))) =
      mset (filter (\<lambda>a. f a = k) xs) + mset (concat (map (\<lambda>c. filter (\<lambda>a. f a = c) ?rest) ks))"
    by (simp add: same)
  also have "\<dots> = mset (filter (\<lambda>a. f a = k) xs) + mset ?rest"
    by (simp only: Cons.IH [OF dist sub])
  also have "\<dots> = mset xs"
    by (induction xs) auto
  finally show ?case .
qed


lemma groupLines_empty_map_of:
  assumes "groupLines xs [] = Inr G" and "c \<in> set (map fst G)"
  shows "map_of G c = Some (filter (\<lambda>a. categoryOf a = c) xs)"
proof -
  from groupLines_keys [OF assms(1)] assms(2) have "c \<in> categoryOf ` set xs"
    by (simp add: set_discover)
  with groupLines_map_of [OF assms(1), of c] show ?thesis by simp
qed

lemma section_spec:
  assumes "groupByTypeAndCategory custom lc accounts t = Inr gs"
  shows "gs = map (\<lambda>c. \<lparr>g_name = c,
                g_accounts = filter (\<lambda>a. categoryOf a = c) (filtered t accounts),
                g_total = foldl (\<lambda>sum a. fadd sum (balance a)) 0
                            (filter (\<lambda>a. categoryOf a = c) (filtered t accounts))\<rparr>)
             (sortBy (compareCategories custom lc) (ownKeyOrder (discoveryOrder (filtered t accounts))))"
proof -
  let ?F = "filtered t accounts"
  from assms obtain G where G: "groupLines ?F [] = Inr G"
    and gs: "mapE (mkGroup G) (sortBy (compareCategories custom lc) (objectKeys G)) = Inr gs"
    by (auto simp: groupByTypeAndCategory_def Let_def split: sum.splits)
  have keys: "map fst G = discoveryOrder ?F"
    using groupLines_keys [OF G] by (simp add: discoveryOrder_def)
  let ?names = "sortBy (compareCategories custom lc) (objectKeys G)"
  have "mset ?names = mset (map fst G)"
    by (simp add: mset_sortBy objectKeys_def mset_ownKeyOrder)
  then have names: "set ?names = set (map fst G)"
    by (rule mset_eq_setD)
  have "mapE (mkGroup G) ?names =
      Inr (map (\<lambda>c. \<lparr>g_name = c, g_accounts = filter (\<lambda>a. categoryOf a = c) ?F,
                       g_total = foldl (\<lambda>sum a. fadd sum (balance a)) 0 (filter (\<lambda>a. categoryOf a = c) ?F)\<rparr>)
             ?names)"
  proof (rule mapE_Inr)
    fix c assume "c \<in> set ?names"
    with names have "c \<in> set (map fst G)" by simp
    from groupLines_empty_map_of [OF G this]
    show "mkGroup G c = Inr \<lparr>g_name = c, g_accounts = filter (\<lambda>a. categoryOf a = c) ?F,
        g_total = foldl (\<lambda>sum a. fadd sum (balance a)) 0 (filter (\<lambda>a. categoryOf a = c) ?F)\<rparr>"
      by (simp add: mkGroup_def)
  qed
  with gs show ?thesis by (simp add: objectKeys_def keys)
qed


section \<open>Statement Aggregator: sorting the categories\<close>

lemma insertBy_rank: "insertBy (\<lambda>a b. r a - r b) x xs = insort_key r x xs" for r :: "'a \<Rightarrow> int"
  by (induction xs) simp_all

lemma sortBy_rank: "sortBy (\<lambda>a b. r a - r b) xs = sort_key r xs" for r :: "'a \<Rightarrow> int"
  by (induction xs) (simp_all add: sortBy_def sort_key_def insertBy_rank)

lemma sortBy_default: "sortBy (compareCategories False lc) xs = sort_key categoryRank xs"
proof -
  have "compareCategories False lc = (\<lambda>a b. categoryRank a - categoryRank b)"
    by (simp add: compareCategories_def fun_eq_iff)
  then show ?thesis by (simp only: sortBy_rank)
qed

lemma set_insertBy: "set (insertBy c x xs) = insert x (set xs)"
  by (induction xs) auto

lemma defaultOrderMap_nonzero: "defaultOrderMap a = Some n \<Longrightarrow> n \<noteq> 0"
proof -
  assume "defaultOrderMap a = Some n"
  then have "(a, n) \<in> set defaultOrderTable"
    unfolding defaultOrderMap_def by (rule map_of_SomeD)
  then have "n \<in> snd ` set defaultOrderTable" by force
  then show ?thesis by (auto simp: defaultOrderTable_def)
qed

lemma sorted_wrt_insertBy:
  assumes total: "\<And>a b. c a b \<le> 0 \<or> c b a \<le> 0"
    and trans: "\<And>a b d. c a b \<le> 0 \<Longrightarrow> c b d \<le> 0 \<Longrightarrow> c a d \<le> 0"
  shows "sorted_wrt (\<lambda>a b. c a b \<le> 0) xs \<Longrightarrow> sorted_wrt (\<lambda>a b. c a b \<le> 0) (insertBy c x xs)"
proof (induction xs)
  case Nil
  then show ?case by simp
next
  case (Cons y ys)
  from Cons.prems have y_le: "\<forall>z \<in> set ys. c y z \<le> 0" and ys: "sorted_wrt (\<lambda>a b. c a b \<le> 0) ys"
    by simp_all
  show ?case
  proof (cases "c x y \<le> 0")
    case True
    have "\<forall>z \<in> set ys. c x z \<le> 0"
    proof
      fix z assume "z \<in> set ys"
      with y_le have "c y z \<le> 0" by blast
      with True show "c x z \<le> 0" by (rule trans)
    qed
    with True y_le ys show ?thesis by simp
  next
    case False
    with total [of x y] have "c y x \<le> 0" by blast
    with y_le have "\<forall>z \<in> set (insertBy c x ys). c y z \<le> 0"
      by (simp add: set_insertBy)
    with False Cons.IH [OF ys] show ?thesis by simp
  qed
qed

lemma sorted_wrt_sortBy:
  assumes total: "\<And>a b. c a b \<le> 0 \<or> c b a \<le> 0"
    and trans: "\<And>a b d. c a b \<le> 0 \<Longrightarrow> c b d \<le> 0 \<Longrightarrow> c a d \<le> 0"
  shows "sorted_wrt (\<lambda>a b. c a b \<le> 0) (sortBy c xs)"
proof (induction xs)
  case Nil
  show ?case by (simp add: sortBy_def)
next
  case (Cons x xs)
  have "sortBy c (x # xs) = insertBy c x (sortBy c xs)" by (simp add: sortBy_def)
  with sorted_wrt_insertBy [of c "sortBy c xs" x, OF total trans Cons.IH] show ?case by simp
qed

lemma truthyRank_table: "truthyRank (defaultOrderMap a) \<longleftrightarrow> defaultOrderMap a \<noteq> None"
  using defaultOrderMap_nonzero [of a] by (cases "defaultOrderMap a") (simp_all add: truthyRank_def)

lemma categoryRank_table: "defaultOrderMap a = Some n \<Longrightarrow> categoryRank a = n"
  using defaultOrderMap_nonzero [of a n] by (simp add: categoryRank_def)

lemma categoryRank_unlisted: "defaultOrderMap a = None \<Longrightarrow> categoryRank a = 99"
  by (simp add: categoryRank_def)

lemma compare_custom_le:
  "compareCategories True lc a b \<le> 0 \<longleftrightarrow>
     (if defaultOrderMap a \<noteq> None \<and> defaultOrderMap b \<noteq> None then categoryRank a \<le> categoryRank b
      else if defaultOrderMap a \<noteq> None then True
      else if defaultOrderMap b \<noteq> None then False
      else lc a b \<le> 0)"
  using defaultOrderMap_nonzero [of a] defaultOrderMap_nonzero [of b]
  by (cases "defaultOrderMap a"; cases "defaultOrderMap b")
    (simp_all add: compareCategories_def truthyRank_def categoryRank_def Let_def)

lemma compare_custom_total:
  assumes "\<forall>a b. lc a b \<le> 0 \<or> lc b a \<le> 0"
  shows "\<forall>a b. compareCategories True lc a b \<le> 0 \<or> compareCategories True lc b a \<le> 0"
proof (intro allI)
  fix a b
  from assms have "lc a b \<le> 0 \<or> lc b a \<le> 0" by blast
  then show "compareCategories True lc a b \<le> 0 \<or> compareCategories True lc b a \<le> 0"
    unfolding compare_custom_le by (cases "defaultOrderMap a"; cases "defaultOrderMap b") auto
qed

lemma compare_custom_trans:
  assumes "\<forall>a b d. lc a b \<le> 0 \<and> lc b d \<le> 0 \<longrightarrow> lc a d \<le> 0"
  shows "\<forall>a b d. compareCategories True lc a b \<le> 0 \<and> compareCategories True lc b d \<le> 0 \<longrightarrow>
           compareCategories True lc a d \<le> 0"
proof (intro allI impI)
  fix a b d
  assume h: "compareCategories True lc a b \<le> 0 \<and> compareCategories True lc b d \<le> 0"
  from assms have lc: "lc a b \<le> 0 \<Longrightarrow> lc b d \<le> 0 \<Longrightarrow> lc a d \<le> 0" by blast
  from h lc show "compareCategories True lc a d \<le> 0"
    unfolding compare_custom_le
    by (cases "defaultOrderMap a"; cases "defaultOrderMap b"; cases "defaultOrderMap d") auto
qed

section \<open>Statement Aggregator: totals and completeness\<close>


lemma balance_fold_floatSum:
  "foldl (\<lambda>sum a. fadd sum (balance a)) 0 xs = floatSum (map balance xs)"
  unfolding floatSum_def by (rule foldl_fadd_map)

lemma groupedFinancials_Inr:
  assumes "groupedFinancials cr gm lc accounts = Inr st"
  shows "groupByTypeAndCategory (hasCustomModel cr gm) lc accounts ASSET = Inr (assets st) \<and>
     groupByTypeAndCategory (hasCustomModel cr gm) lc accounts LIABILITY = Inr (liabilities st) \<and>
     groupByTypeAndCategory (hasCustomModel cr gm) lc accounts EQUITY = Inr (equity st) \<and>
     groupByTypeAndCategory (hasCustomModel cr gm) lc accounts REVENUE = Inr (revenue st) \<and>
     groupByTypeAndCategory (hasCustomModel cr gm) lc accounts EXPENSE = Inr (expenses st) \<and>
     assetsTotal st = sectionTotal (assets st) \<and>
     liabilitiesTotal st = sectionTotal (liabilities st) \<and>
     equityTotal st = sectionTotal (equity st) \<and>
     revenueTotal st = sectionTotal (revenue st) \<and>
     expenseTotal st = sectionTotal (expenses st) \<and>
     netResult st = \<bar>sectionTotal (revenue st)\<bar> - \<bar>sectionTotal (expenses st)\<bar>"
  using assms
  by (auto simp: groupedFinancials_def bindE_def Let_def split: sum.splits)

lemma section_group:
  assumes "groupByTypeAndCategory custom lc accounts t = Inr gs" and "g \<in> set gs"
  shows "g_accounts g = filter (\<lambda>a. type a = t \<and> \<not> isGroup a \<and> categoryOf a = g_name g) accounts \<and>
     g_total g = floatSum (map balance (g_accounts g))"
proof -
  have conj: "filter (\<lambda>a. categoryOf a = c) (filtered t accounts) =
      filter (\<lambda>a. type a = t \<and> \<not> isGroup a \<and> categoryOf a = c) accounts" for c
    by (auto simp: filtered_def intro: filter_cong)
  from assms(2) show ?thesis
    unfolding section_spec [OF assms(1)]
    by (auto simp: balance_fold_floatSum conj)
qed



lemmas aggregator_eval =
  groupedFinancials_def hasCustomModel_def bindE_def groupByTypeAndCategory_def filtered_def
  rubroLine_def exampleLine_def ASSET_def LIABILITY_def EQUITY_def REVENUE_def EXPENSE_def
  UNCLASSIFIED_def categoryOf_def objectPrototypeKeys_def objectKeys_def ownKeyOrder_def
  isArrayIndex_def isDigit_def decimal_def sortBy_def compareCategories_def categoryRank_def
  truthyRank_def defaultOrderMap_def defaultOrderTable_def mkGroup_def sectionTotal_def Let_def
  fadd_def roundDouble_Ints

lemma example_statement:
  "groupedFinancials None None (\<lambda>a b. 0) exampleAccounts = Inr exampleStatement"
  by (simp add: exampleAccounts_def exampleStatement_def aggregator_eval)





lemma section_partition:
  assumes "groupByTypeAndCategory custom lc accounts t = Inr gs"
  shows "mset (concat (map g_accounts gs)) = mset (filtered t accounts) \<and>
     distinct (map g_name gs) \<and> (\<forall>g \<in> set gs. g_accounts g \<noteq> [])"
proof -
  let ?F = "filtered t accounts"
  let ?names = "sortBy (compareCategories custom lc) (ownKeyOrder (discoveryOrder ?F))"
  note gs = section_spec [OF assms]
  have perm: "mset ?names = mset (discoveryOrder ?F)"
    by (simp add: mset_sortBy mset_ownKeyOrder)
  have "distinct (discoveryOrder ?F)"
    by (simp add: discoveryOrder_def distinct_discover)
  then have dist: "distinct ?names"
    by (simp only: mset_eq_imp_distinct_iff [OF perm])
  from perm have "set ?names = set (discoveryOrder ?F)"
    by (rule mset_eq_setD)
  then have names: "set ?names = categoryOf ` set ?F"
    by (simp add: discoveryOrder_def set_discover)
  have accs: "map g_accounts gs = map (\<lambda>c. filter (\<lambda>a. categoryOf a = c) ?F) ?names"
    apply (subst gs) apply (simp add: comp_def) done
  have nms: "map g_name gs = ?names"
    apply (subst gs) apply (simp add: comp_def) done
  have sub: "categoryOf ` set ?F \<subseteq> set ?names"
    by (simp only: names)
  have part: "mset (concat (map g_accounts gs)) = mset ?F"
    by (simp only: accs partition_by_key [OF dist sub])
  have nonempty: "\<forall>g \<in> set gs. g_accounts g \<noteq> []"
  proof
    fix g assume "g \<in> set gs"
    then have "g_accounts g \<in> set (map g_accounts gs)" by simp
    then obtain c where c: "c \<in> set ?names" and g: "g_accounts g = filter (\<lambda>a. categoryOf a = c) ?F"
      unfolding accs by auto
    from c names obtain a where "a \<in> set ?F" and "categoryOf a = c" by auto
    then have "filter (\<lambda>a. categoryOf a = c) ?F \<noteq> []"
      by (auto simp: filter_empty_conv)
    with g show "g_accounts g \<noteq> []" by simp
  qed
  from dist nms have "distinct (map g_name gs)" by (simp only:)
  with part nonempty show ?thesis by blast
qed

lemma filter_disjoint_union:
  "\<forall>a. \<not> (P a \<and> Q a) \<Longrightarrow>
   mset (filter P xs) + mset (filter Q xs) = mset (filter (\<lambda>a. P a \<or> Q a) xs)"
  by (induction xs) auto

lemma five_sections:
  "mset (filtered ASSET xs) + mset (filtered LIABILITY xs) + mset (filtered EQUITY xs) +
   mset (filtered REVENUE xs) + mset (filtered EXPENSE xs) =
   mset (filter (\<lambda>a. \<not> isGroup a \<and> type a \<in> set [ASSET, LIABILITY, EQUITY, REVENUE, EXPENSE]) xs)"
proof -
  have d: "ASSET \<noteq> LIABILITY" "ASSET \<noteq> EQUITY" "ASSET \<noteq> REVENUE" "ASSET \<noteq> EXPENSE"
    "LIABILITY \<noteq> EQUITY" "LIABILITY \<noteq> REVENUE" "LIABILITY \<noteq> EXPENSE"
    "EQUITY \<noteq> REVENUE" "EQUITY \<noteq> EXPENSE" "REVENUE \<noteq> EXPENSE"
    by (simp_all add: ASSET_def LIABILITY_def EQUITY_def REVENUE_def EXPENSE_def)
  have "mset (filtered ASSET xs) + mset (filtered LIABILITY xs) =
      mset (filter (\<lambda>a. (type a = ASSET \<and> \<not> isGroup a) \<or> (type a = LIABILITY \<and> \<not> isGroup a)) xs)"
    unfolding filtered_def using d by (intro filter_disjoint_union) auto
  moreover have "\<dots> + mset (filtered EQUITY xs) =
      mset (filter (\<lambda>a. ((type a = ASSET \<and> \<not> isGroup a) \<or> (type a = LIABILITY \<and> \<not> isGroup a)) \<or>
                       (type a = EQUITY \<and> \<not> isGroup a)) xs)"
    unfolding filtered_def using d by (intro filter_disjoint_union) auto
  moreover have "\<dots> + mset (filtered REVENUE xs) =
      mset (filter (\<lambda>a. (((type a = ASSET \<and> \<not> isGroup a) \<or> (type a = LIABILITY \<and> \<not> isGroup a)) \<or>
                       (type a = EQUITY \<and> \<not> isGroup a)) \<or> (type a = REVENUE \<and> \<not> isGroup a)) xs)"
    unfolding filtered_def using d by (intro filter_disjoint_union) auto
  moreover have "\<dots> + mset (filtered EXPENSE xs) =
      mset (filter (\<lambda>a. ((((type a = ASSET \<and> \<not> isGroup a) \<or> (type a = LIABILITY \<and> \<not> isGroup a)) \<or>
                       (type a = EQUITY \<and> \<not> isGroup a)) \<or> (type a = REVENUE \<and> \<not> isGroup a)) \<or>
                       (type a = EXPENSE \<and> \<not> isGroup a)) xs)"
    unfolding filtered_def using d by (intro filter_disjoint_union) auto
  moreover have "filter (\<lambda>a. ((((type a = ASSET \<and> \<not> isGroup a) \<or> (type a = LIABILITY \<and> \<not> isGroup a)) \<or>
                       (type a = EQUITY \<and> \<not> isGroup a)) \<or> (type a = REVENUE \<and> \<not> isGroup a)) \<or>
                       (type a = EXPENSE \<and> \<not> isGroup a)) xs =
      filter (\<lambda>a. \<not> isGroup a \<and> type a \<in> set [ASSET, LIABILITY, EQUITY, REVENUE, EXPENSE]) xs"
    by (rule filter_cong) auto
  ultimately show ?thesis by (simp only:)
qed

text \<open>
  C1 (as amended). In every statement the aggregator returns, the lines of all groups of
  the five sections together are exactly the lines that are not groups and whose section
  is \<^verbatim>\<open>ACTIVO\<close>, \<^verbatim>\<open>PASIVO\<close>, \<^verbatim>\<open>PATRIMONIO_NETO\<close>, \<^verbatim>\<open>INGRESOS\<close> or \<^verbatim>\<open>EGRESOS\<close>, each as often
  as the input holds it; within a section the group names are distinct, no group is
  empty, and a group holds the section's lines of its category. A line of another
  section (\<^verbatim>\<open>SIN_CLASIFICAR\<close> among them) is in no group.
\<close>

theorem grouping_completeness:
  assumes "groupedFinancials cr gm lc accounts = Inr st"
  shows "mset (statementLines st) =
       mset (filter (\<lambda>a. \<not> isGroup a \<and> type a \<in> set [ASSET, LIABILITY, EQUITY, REVENUE, EXPENSE]) accounts) \<and>
     (\<forall>(t, gs) \<in> set (sectionsOf st).
        distinct (map g_name gs) \<and>
        (\<forall>g \<in> set gs. g_accounts g \<noteq> [] \<and>
           g_accounts g = filter (\<lambda>a. type a = t \<and> \<not> isGroup a \<and> categoryOf a = g_name g) accounts))"
proof -
  note parts = groupedFinancials_Inr [OF assms]
  from parts have a: "groupByTypeAndCategory (hasCustomModel cr gm) lc accounts ASSET = Inr (assets st)"
    and l: "groupByTypeAndCategory (hasCustomModel cr gm) lc accounts LIABILITY = Inr (liabilities st)"
    and e: "groupByTypeAndCategory (hasCustomModel cr gm) lc accounts EQUITY = Inr (equity st)"
    and r: "groupByTypeAndCategory (hasCustomModel cr gm) lc accounts REVENUE = Inr (revenue st)"
    and x: "groupByTypeAndCategory (hasCustomModel cr gm) lc accounts EXPENSE = Inr (expenses st)"
    by simp_all
  have "mset (statementLines st) =
      mset (filtered ASSET accounts) + mset (filtered LIABILITY accounts) + mset (filtered EQUITY accounts) +
      mset (filtered REVENUE accounts) + mset (filtered EXPENSE accounts)"
    using section_partition [OF a] section_partition [OF l] section_partition [OF e]
      section_partition [OF r] section_partition [OF x]
    by (simp add: statementLines_def sectionsOf_def)
  then have all: "mset (statementLines st) =
      mset (filter (\<lambda>a. \<not> isGroup a \<and> type a \<in> set [ASSET, LIABILITY, EQUITY, REVENUE, EXPENSE]) accounts)"
    by (simp only: five_sections)
  have each: "\<forall>(t, gs) \<in> set (sectionsOf st).
        distinct (map g_name gs) \<and>
        (\<forall>g \<in> set gs. g_accounts g \<noteq> [] \<and>
           g_accounts g = filter (\<lambda>a. type a = t \<and> \<not> isGroup a \<and> categoryOf a = g_name g) accounts)"
    using section_partition [OF a] section_partition [OF l] section_partition [OF e]
      section_partition [OF r] section_partition [OF x]
      section_group [OF a] section_group [OF l] section_group [OF e] section_group [OF r] section_group [OF x]
    by (simp add: sectionsOf_def)
  from all each show ?thesis ..
qed

theorem grouping_completeness_witness:
  "groupedFinancials None None (\<lambda>a b. 0) exampleAccounts = Inr exampleStatement \<and>
   mset (statementLines exampleStatement) =
     mset [rubroLine ''a1'' ASSET ''Inversiones'' 50, rubroLine ''a2'' ASSET ''Caja y Bancos'' 100,
           rubroLine ''a3'' ASSET ''Caja y Bancos'' 25, rubroLine ''r1'' REVENUE ''Ventas'' (- 300),
           rubroLine ''e1'' EXPENSE ''Sueldos'' 120]"
proof -
  have "filter (\<lambda>a. \<not> isGroup a \<and> type a \<in> set [ASSET, LIABILITY, EQUITY, REVENUE, EXPENSE]) exampleAccounts =
     [rubroLine ''a1'' ASSET ''Inversiones'' 50, rubroLine ''a2'' ASSET ''Caja y Bancos'' 100,
      rubroLine ''a3'' ASSET ''Caja y Bancos'' 25, rubroLine ''r1'' REVENUE ''Ventas'' (- 300),
      rubroLine ''e1'' EXPENSE ''Sueldos'' 120]"
    by (simp add: exampleAccounts_def rubroLine_def exampleLine_def ASSET_def LIABILITY_def EQUITY_def
        REVENUE_def EXPENSE_def UNCLASSIFIED_def)
  with grouping_completeness [OF example_statement, THEN conjunct1] example_statement
  show ?thesis by (simp only:)
qed

text \<open>
  The claim C1 as stated fails: a single line that is no group, of section
  \<^verbatim>\<open>SIN_CLASIFICAR\<close>, gives a statement without any line.
\<close>

theorem grouping_completeness_counterexample:
  "map_sum id statementLines
     (groupedFinancials None None (\<lambda>a b. 0) [rubroLine ''u1'' UNCLASSIFIED ''Sin Clasificar'' 5]) = Inr [] \<and>
   filter (\<lambda>a. \<not> isGroup a) [rubroLine ''u1'' UNCLASSIFIED ''Sin Clasificar'' 5] =
     [rubroLine ''u1'' UNCLASSIFIED ''Sin Clasificar'' 5]"
  by (simp add: aggregator_eval statementLines_def sectionsOf_def)

section \<open>Statement Aggregator: the order of the categories\<close>

lemma codeUnitCompare_total: "codeUnitCompare a b \<le> 0 \<or> codeUnitCompare b a \<le> 0"
proof (induction a b rule: codeUnitCompare.induct)
  case (4 x xs y ys)
  consider "codeUnit x < codeUnit y" | "codeUnit y < codeUnit x" | "codeUnit x = codeUnit y"
    by linarith
  then show ?case
  proof cases
    case 1 then show ?thesis by simp
  next
    case 2 then show ?thesis by simp
  next
    case 3 with 4 show ?thesis by simp
  qed
qed simp_all


lemma codeUnitCompare_Cons_le:
  "codeUnitCompare (x # xs) (y # ys) \<le> 0 \<longleftrightarrow>
     codeUnit x < codeUnit y \<or> (codeUnit x = codeUnit y \<and> codeUnitCompare xs ys \<le> 0)"
proof -
  consider "codeUnit x < codeUnit y" | "codeUnit y < codeUnit x" | "codeUnit x = codeUnit y"
    by linarith
  then show ?thesis by cases simp_all
qed

lemma codeUnitCompare_trans:
  "codeUnitCompare a b \<le> 0 \<Longrightarrow> codeUnitCompare b d \<le> 0 \<Longrightarrow> codeUnitCompare a d \<le> 0"
proof (induction a arbitrary: b d)
  case Nil
  then show ?case by (cases d) simp_all
next
  case (Cons x xs)
  from Cons.prems(1) obtain y ys where b: "b = y # ys" by (cases b) simp_all
  from Cons.prems(2) b obtain z zs where d: "d = z # zs" by (cases d) simp_all
  from Cons.prems b d
  have xy: "codeUnit x < codeUnit y \<or> (codeUnit x = codeUnit y \<and> codeUnitCompare xs ys \<le> 0)"
    and yz: "codeUnit y < codeUnit z \<or> (codeUnit y = codeUnit z \<and> codeUnitCompare ys zs \<le> 0)"
    by (simp_all only: codeUnitCompare_Cons_le)
  have "codeUnit x < codeUnit z \<or> (codeUnit x = codeUnit z \<and> codeUnitCompare xs zs \<le> 0)"
  proof (cases "codeUnit x = codeUnit y \<and> codeUnit y = codeUnit z")
    case True
    with xy yz have "codeUnitCompare xs ys \<le> 0" and "codeUnitCompare ys zs \<le> 0" by simp_all
    then have "codeUnitCompare xs zs \<le> 0" by (rule Cons.IH)
    with True show ?thesis by simp
  next
    case False
    with xy yz have "codeUnit x < codeUnit z" by linarith
    then show ?thesis ..
  qed
  then show ?case by (simp only: d codeUnitCompare_Cons_le)
qed

text \<open>
  C2 (as amended). For a section whose groups are returned, the group names are the
  discovered categories, each once. Without a custom model they are the stable sort by
  the table's rank (99 for a category the table lacks) of the keys of the group object in
  their own order: the categories that are array indices in ascending numeric order,
  then the others in discovery order. So the ranks ascend, categories of equal rank keep
  that key order, and when no category is an array index the names are the stable sort
  by rank of the discovery order. With a custom model and a \<^verbatim>\<open>localeCompare\<close> that is a
  consistent comparator (total and transitive), for every two groups the earlier and the
  later one satisfy: both in the table, the ranks ascend; never the earlier one outside
  the table and the later one in it; both outside the table, \<^verbatim>\<open>localeCompare\<close> puts the
  earlier one first or level.
\<close>

theorem category_ordering_policy:
  assumes "groupByTypeAndCategory custom lc accounts t = Inr gs"
  shows
  "mset (map g_name gs) = mset (discoveryOrder (filtered t accounts)) \<and>
   (\<not> custom \<longrightarrow>
      map g_name gs = sort_key categoryRank
         (sort_key decimal (filter isArrayIndex (discoveryOrder (filtered t accounts))) @
          filter (\<lambda>k. \<not> isArrayIndex k) (discoveryOrder (filtered t accounts))) \<and>
      sorted (map categoryRank (map g_name gs)) \<and>
      (\<forall>r. filter (\<lambda>c. categoryRank c = r) (map g_name gs) =
           filter (\<lambda>c. categoryRank c = r)
             (sort_key decimal (filter isArrayIndex (discoveryOrder (filtered t accounts))) @
              filter (\<lambda>k. \<not> isArrayIndex k) (discoveryOrder (filtered t accounts)))) \<and>
      ((\<forall>c \<in> set (discoveryOrder (filtered t accounts)). \<not> isArrayIndex c) \<longrightarrow>
         map g_name gs = sort_key categoryRank (discoveryOrder (filtered t accounts)))) \<and>
   (\<forall>c. categoryRank c = (case defaultOrderMap c of None \<Rightarrow> 99 | Some n \<Rightarrow> n)) \<and>
   (custom \<and> (\<forall>a b. lc a b \<le> 0 \<or> lc b a \<le> 0) \<and>
      (\<forall>a b d. lc a b \<le> 0 \<and> lc b d \<le> 0 \<longrightarrow> lc a d \<le> 0) \<longrightarrow>
      (\<forall>i j. i < j \<and> j < length gs \<longrightarrow>
         (defaultOrderMap (g_name (gs ! i)) \<noteq> None \<and> defaultOrderMap (g_name (gs ! j)) \<noteq> None \<longrightarrow>
            categoryRank (g_name (gs ! i)) \<le> categoryRank (g_name (gs ! j))) \<and>
         \<not> (defaultOrderMap (g_name (gs ! i)) = None \<and> defaultOrderMap (g_name (gs ! j)) \<noteq> None) \<and>
         (defaultOrderMap (g_name (gs ! i)) = None \<and> defaultOrderMap (g_name (gs ! j)) = None \<longrightarrow>
            lc (g_name (gs ! i)) (g_name (gs ! j)) \<le> 0)))"
proof -
  let ?D = "discoveryOrder (filtered t accounts)"
  have names: "map g_name gs = sortBy (compareCategories custom lc) (ownKeyOrder ?D)"
    by (subst section_spec [OF assms]) (simp add: comp_def)
  have perm: "mset (map g_name gs) = mset ?D"
    by (simp only: names mset_sortBy mset_ownKeyOrder)
  have default: "\<not> custom \<longrightarrow>
      map g_name gs = sort_key categoryRank
         (sort_key decimal (filter isArrayIndex ?D) @ filter (\<lambda>k. \<not> isArrayIndex k) ?D) \<and>
      sorted (map categoryRank (map g_name gs)) \<and>
      (\<forall>r. filter (\<lambda>c. categoryRank c = r) (map g_name gs) =
           filter (\<lambda>c. categoryRank c = r)
             (sort_key decimal (filter isArrayIndex ?D) @ filter (\<lambda>k. \<not> isArrayIndex k) ?D)) \<and>
      ((\<forall>c \<in> set ?D. \<not> isArrayIndex c) \<longrightarrow> map g_name gs = sort_key categoryRank ?D)"
  proof
    assume "\<not> custom"
    with names have eq: "map g_name gs = sort_key categoryRank (ownKeyOrder ?D)"
      by (simp add: sortBy_default)
    have plain: "ownKeyOrder ?D = ?D" if "\<forall>c \<in> set ?D. \<not> isArrayIndex c"
      using that by (simp add: ownKeyOrder_def)
    from eq plain show "map g_name gs = sort_key categoryRank
         (sort_key decimal (filter isArrayIndex ?D) @ filter (\<lambda>k. \<not> isArrayIndex k) ?D) \<and>
      sorted (map categoryRank (map g_name gs)) \<and>
      (\<forall>r. filter (\<lambda>c. categoryRank c = r) (map g_name gs) =
           filter (\<lambda>c. categoryRank c = r)
             (sort_key decimal (filter isArrayIndex ?D) @ filter (\<lambda>k. \<not> isArrayIndex k) ?D)) \<and>
      ((\<forall>c \<in> set ?D. \<not> isArrayIndex c) \<longrightarrow> map g_name gs = sort_key categoryRank ?D)"
      by (auto simp: sort_key_stable ownKeyOrder_def [symmetric] simp del: map_map)
  qed
  have rank: "\<forall>c. categoryRank c = (case defaultOrderMap c of None \<Rightarrow> 99 | Some n \<Rightarrow> n)"
    by (auto simp: categoryRank_table categoryRank_unlisted split: option.splits)
  have customised: "custom \<and> (\<forall>a b. lc a b \<le> 0 \<or> lc b a \<le> 0) \<and>
      (\<forall>a b d. lc a b \<le> 0 \<and> lc b d \<le> 0 \<longrightarrow> lc a d \<le> 0) \<longrightarrow>
      (\<forall>i j. i < j \<and> j < length gs \<longrightarrow>
         (defaultOrderMap (g_name (gs ! i)) \<noteq> None \<and> defaultOrderMap (g_name (gs ! j)) \<noteq> None \<longrightarrow>
            categoryRank (g_name (gs ! i)) \<le> categoryRank (g_name (gs ! j))) \<and>
         \<not> (defaultOrderMap (g_name (gs ! i)) = None \<and> defaultOrderMap (g_name (gs ! j)) \<noteq> None) \<and>
         (defaultOrderMap (g_name (gs ! i)) = None \<and> defaultOrderMap (g_name (gs ! j)) = None \<longrightarrow>
            lc (g_name (gs ! i)) (g_name (gs ! j)) \<le> 0))"
  proof (intro impI allI)
    fix i j
    assume h: "custom \<and> (\<forall>a b. lc a b \<le> 0 \<or> lc b a \<le> 0) \<and>
      (\<forall>a b d. lc a b \<le> 0 \<and> lc b d \<le> 0 \<longrightarrow> lc a d \<le> 0)"
      and ij: "i < j \<and> j < length gs"
    from h have total: "\<And>a b. compareCategories True lc a b \<le> 0 \<or> compareCategories True lc b a \<le> 0"
      using compare_custom_total [of lc] by blast
    from h have trans: "\<And>a b d. compareCategories True lc a b \<le> 0 \<Longrightarrow>
        compareCategories True lc b d \<le> 0 \<Longrightarrow> compareCategories True lc a d \<le> 0"
      using compare_custom_trans [of lc] by blast
    from h names have "sorted_wrt (\<lambda>a b. compareCategories True lc a b \<le> 0) (map g_name gs)"
      using sorted_wrt_sortBy [of "compareCategories True lc", OF total trans] by simp
    from sorted_wrt_nth_less [OF this, of i j] ij
    have "compareCategories True lc (g_name (gs ! i)) (g_name (gs ! j)) \<le> 0"
      by simp
    then show "(defaultOrderMap (g_name (gs ! i)) \<noteq> None \<and> defaultOrderMap (g_name (gs ! j)) \<noteq> None \<longrightarrow>
            categoryRank (g_name (gs ! i)) \<le> categoryRank (g_name (gs ! j))) \<and>
         \<not> (defaultOrderMap (g_name (gs ! i)) = None \<and> defaultOrderMap (g_name (gs ! j)) \<noteq> None) \<and>
         (defaultOrderMap (g_name (gs ! i)) = None \<and> defaultOrderMap (g_name (gs ! j)) = None \<longrightarrow>
            lc (g_name (gs ! i)) (g_name (gs ! j)) \<le> 0)"
      unfolding compare_custom_le by (auto split: if_splits)
  qed
  from perm default rank customised show ?thesis by blast
qed

theorem category_ordering_policy_witness:
  "map_sum id (map g_name)
     (groupByTypeAndCategory True codeUnitCompare
        [rubroLine ''a1'' ASSET ''Zeta'' 1, rubroLine ''a2'' ASSET ''Inversiones'' 2,
         rubroLine ''a3'' ASSET ''Alfa'' 3, rubroLine ''a4'' ASSET ''Caja y Bancos'' 4] ASSET) =
     Inr [''Caja y Bancos'', ''Inversiones'', ''Alfa'', ''Zeta''] \<and>
   categoryRank ''Caja y Bancos'' \<le> categoryRank ''Inversiones'' \<and>
   codeUnitCompare ''Alfa'' ''Zeta'' \<le> 0"
proof -
  let ?accounts = "[rubroLine ''a1'' ASSET ''Zeta'' 1, rubroLine ''a2'' ASSET ''Inversiones'' 2,
         rubroLine ''a3'' ASSET ''Alfa'' 3, rubroLine ''a4'' ASSET ''Caja y Bancos'' 4]"
  let ?gs = "[\<lparr>g_name = ''Caja y Bancos'', g_accounts = [rubroLine ''a4'' ASSET ''Caja y Bancos'' 4], g_total = 4\<rparr>,
      \<lparr>g_name = ''Inversiones'', g_accounts = [rubroLine ''a2'' ASSET ''Inversiones'' 2], g_total = 2\<rparr>,
      \<lparr>g_name = ''Alfa'', g_accounts = [rubroLine ''a3'' ASSET ''Alfa'' 3], g_total = 3\<rparr>,
      \<lparr>g_name = ''Zeta'', g_accounts = [rubroLine ''a1'' ASSET ''Zeta'' 1], g_total = 1\<rparr>]"
  have ev: "groupByTypeAndCategory True codeUnitCompare ?accounts ASSET = Inr ?gs"
    by (simp add: aggregator_eval codeUnit_def)
  have total: "\<forall>a b. codeUnitCompare a b \<le> 0 \<or> codeUnitCompare b a \<le> 0"
    by (simp add: codeUnitCompare_total)
  have trans: "\<forall>a b d. codeUnitCompare a b \<le> 0 \<and> codeUnitCompare b d \<le> 0 \<longrightarrow> codeUnitCompare a d \<le> 0"
    using codeUnitCompare_trans by blast
  from category_ordering_policy [OF ev] total trans
  have pairs: "\<forall>i j. i < j \<and> j < length ?gs \<longrightarrow>
         (defaultOrderMap (g_name (?gs ! i)) \<noteq> None \<and> defaultOrderMap (g_name (?gs ! j)) \<noteq> None \<longrightarrow>
            categoryRank (g_name (?gs ! i)) \<le> categoryRank (g_name (?gs ! j))) \<and>
         \<not> (defaultOrderMap (g_name (?gs ! i)) = None \<and> defaultOrderMap (g_name (?gs ! j)) \<noteq> None) \<and>
         (defaultOrderMap (g_name (?gs ! i)) = None \<and> defaultOrderMap (g_name (?gs ! j)) = None \<longrightarrow>
            codeUnitCompare (g_name (?gs ! i)) (g_name (?gs ! j)) \<le> 0)"
    by blast
  have listed: "defaultOrderMap ''Caja y Bancos'' \<noteq> None" "defaultOrderMap ''Inversiones'' \<noteq> None"
    and unlisted: "defaultOrderMap ''Alfa'' = None" "defaultOrderMap ''Zeta'' = None"
    by (simp_all add: defaultOrderMap_def defaultOrderTable_def)
  from pairs [rule_format, of 0 1] listed
  have ranks: "categoryRank ''Caja y Bancos'' \<le> categoryRank ''Inversiones''" by simp
  from pairs [rule_format, of 2 3] unlisted
  have alpha: "codeUnitCompare ''Alfa'' ''Zeta'' \<le> 0" by simp
  from ev have "map_sum id (map g_name) (groupByTypeAndCategory True codeUnitCompare ?accounts ASSET) =
      Inr [''Caja y Bancos'', ''Inversiones'', ''Alfa'', ''Zeta'']"
    by simp
  with ranks alpha show ?thesis by blast
qed

text \<open>
  The claim C2 as stated fails: two asset lines with the categories \<^verbatim>\<open>B\<close> and \<^verbatim>\<open>7\<close>, met
  in this order, both of rank 99, and no custom model. The stable sort by rank of the
  discovery order is \<^verbatim>\<open>B\<close>, \<^verbatim>\<open>7\<close>; the aggregator lists \<^verbatim>\<open>7\<close>, \<^verbatim>\<open>B\<close>, the order of
  \<^verbatim>\<open>Object.keys\<close>.
\<close>

theorem category_ordering_policy_counterexample:
  "map_sum id (map g_name)
     (groupByTypeAndCategory False codeUnitCompare
        [rubroLine ''a1'' ASSET ''B'' 5, rubroLine ''a2'' ASSET ''7'' 6] ASSET) = Inr [''7'', ''B''] \<and>
   sort_key categoryRank
     (discoveryOrder (filtered ASSET [rubroLine ''a1'' ASSET ''B'' 5, rubroLine ''a2'' ASSET ''7'' 6])) =
     [''B'', ''7''] \<and>
   categoryRank ''B'' = 99 \<and> categoryRank ''7'' = 99"
  by (simp add: aggregator_eval discoveryOrder_def)


end
